theory Spec2Isabelle
  imports Complex_Main
begin

section \<open>Tensors, framework errors and sequencing\<close>

text \<open>
  The notebook \<^verbatim>\<open>text_classification_with_transformer.ipynb\<close> builds a binary text
  classifier from two layer classes of its own, \<^verbatim>\<open>TransformerBlock\<close> and
  \<^verbatim>\<open>TokenAndPositionEmbedding\<close>, and from layers of the Keras framework.

  One sample is modelled at a time: a vector is a list of numbers, a sequence of vectors
  (a tensor of shape sequence length x dimension) is a list of vectors, and a batch is a
  list of samples. The framework computes in floating point; the model computes in the
  real numbers, so every statement below is about the exact arithmetic that the floating
  point arithmetic approximates.

  Whatever the framework raises is a value of type \<open>error\<close>: a result is
  \<open>Inl e\<close> (the call raised) or \<open>Inr v\<close> (the call returned \<open>v\<close>).
\<close>

type_synonym vec = "real list"

type_synonym seq = "real list list"

datatype error = ShapeMismatch | InvalidIndex | NotANumber

definition and_then :: "error + 'a \<Rightarrow> ('a \<Rightarrow> error + 'b) \<Rightarrow> error + 'b" where
  "and_then r f = (case r of Inl e \<Rightarrow> Inl e | Inr v \<Rightarrow> f v)"

fun traverse :: "('a \<Rightarrow> error + 'b) \<Rightarrow> 'a list \<Rightarrow> error + 'b list" where
  "traverse f [] = Inr []"
| "traverse f (x # xs) =
     and_then (f x) (\<lambda>y. and_then (traverse f xs) (\<lambda>ys. Inr (y # ys)))"

definition has_shape :: "'a list list \<Rightarrow> nat \<Rightarrow> nat \<Rightarrow> bool" where
  "has_shape t n d \<longleftrightarrow> length t = n \<and> list_all (\<lambda>row. length row = d) t"

text \<open>
  Modelled from the spec: the operator \<^verbatim>\<open>+\<close> on tensors is the framework's, not in this
  repository (the spec calls it the element-wise sum and the residual add). As the framework
  documents it, two axes are compatible when they are equal or one of them is 1 (that one
  is broadcast), and incompatible shapes raise.
\<close>

definition add_vec :: "vec \<Rightarrow> vec \<Rightarrow> error + vec" where
  "add_vec a b =
     (if length a = length b then Inr (map2 (+) a b)
      else if length a = 1 then Inr (map (\<lambda>y. hd a + y) b)
      else if length b = 1 then Inr (map (\<lambda>x. x + hd b) a)
      else Inl ShapeMismatch)"

definition tensor_add :: "seq \<Rightarrow> seq \<Rightarrow> error + seq" where
  "tensor_add a b =
     (if length a = length b then traverse (\<lambda>(x, y). add_vec x y) (zip a b)
      else if length a = 1 then traverse (add_vec (hd a)) b
      else if length b = 1 then traverse (\<lambda>x. add_vec x (hd b)) a
      else Inl ShapeMismatch)"

section \<open>The embedding layer\<close>

text \<open>
  Modelled from the spec: \<^verbatim>\<open>keras.layers.Embedding\<close> is the framework's, not in this repository
  (spec: a lookup table mapping discrete ids to dense vectors). The record is the layer
  after the framework has created its table of \<open>input_dim\<close> rows of \<open>output_dim\<close>
  numbers; the numbers themselves (random at first, then trained) are arbitrary. An id
  outside the table has no row: what happens then is the framework's business, and the
  model makes it the error \<open>InvalidIndex\<close>.
\<close>

record Embedding =
  input_dim :: nat
  output_dim :: nat
  embeddings :: "real list list"

definition Embedding_built :: "Embedding \<Rightarrow> bool" where
  "Embedding_built e \<longleftrightarrow> has_shape (embeddings e) (input_dim e) (output_dim e)"

definition Embedding_lookup :: "Embedding \<Rightarrow> int \<Rightarrow> error + vec" where
  "Embedding_lookup e i =
     (if 0 \<le> i \<and> i < int (length (embeddings e)) then Inr (embeddings e ! nat i)
      else Inl InvalidIndex)"

definition Embedding_call :: "Embedding \<Rightarrow> int list \<Rightarrow> error + seq" where
  "Embedding_call e ids = traverse (Embedding_lookup e) ids"

text \<open>
  The notebook's class, lines 96-107:
  \<^verbatim>\<open>
  class TokenAndPositionEmbedding(layers.Layer):
      def __init__(self, maxlen, vocab_size, embed_dim):
          super().__init__()
          self.token_emb = layers.Embedding(input_dim=vocab_size, output_dim=embed_dim)
          self.pos_emb = layers.Embedding(input_dim=maxlen, output_dim=embed_dim)

      def call(self, x):
          maxlen = tf.shape(x)[-1]
          positions = tf.range(start=0, limit=maxlen, delta=1)
          positions = self.pos_emb(positions)
          x = self.token_emb(x)
          return x + positions
  \<close>
  The constructor's two tables are parameters of the model. In \<open>call\<close>, \<open>x\<close> is one
  sample of the batch, so \<^verbatim>\<open>tf.shape(x)[-1]\<close> is its length.
\<close>

record TokenAndPositionEmbedding =
  token_emb :: Embedding
  pos_emb :: Embedding

definition TokenAndPositionEmbedding_init ::
  "nat \<Rightarrow> nat \<Rightarrow> nat \<Rightarrow> real list list \<Rightarrow> real list list \<Rightarrow> TokenAndPositionEmbedding" where
  "TokenAndPositionEmbedding_init maxlen vocab_size embed_dim token_table pos_table =
     \<lparr>token_emb = \<lparr>input_dim = vocab_size, output_dim = embed_dim, embeddings = token_table\<rparr>,
      pos_emb = \<lparr>input_dim = maxlen, output_dim = embed_dim, embeddings = pos_table\<rparr>\<rparr>"

definition TokenAndPositionEmbedding_built :: "TokenAndPositionEmbedding \<Rightarrow> bool" where
  "TokenAndPositionEmbedding_built self \<longleftrightarrow>
     Embedding_built (token_emb self) \<and> Embedding_built (pos_emb self) \<and>
     output_dim (token_emb self) = output_dim (pos_emb self)"

definition TokenAndPositionEmbedding_call ::
  "TokenAndPositionEmbedding \<Rightarrow> int list \<Rightarrow> error + seq" where
  "TokenAndPositionEmbedding_call self x =
     (let maxlen = length x;
          positions = map int [0..<maxlen]
      in and_then (Embedding_call (pos_emb self) positions) (\<lambda>positions.
         and_then (Embedding_call (token_emb self) x) (\<lambda>x.
         tensor_add x positions)))"

text \<open>
  What the spec says the layer returns: at each position \<open>p\<close> of the input, the token
  table's row of the id at \<open>p\<close> plus the position table's row \<open>p\<close>, entry by entry.
\<close>

definition token_plus_position :: "TokenAndPositionEmbedding \<Rightarrow> int list \<Rightarrow> seq" where
  "token_plus_position self x =
     map (\<lambda>p. map2 (+) (embeddings (token_emb self) ! nat (x ! p))
                        (embeddings (pos_emb self) ! p))
       [0..<length x]"

definition ids_in_range :: "nat \<Rightarrow> int list \<Rightarrow> bool" where
  "ids_in_range vocab_size x \<longleftrightarrow> list_all (\<lambda>i. 0 \<le> i \<and> i < int vocab_size) x"

section \<open>The framework's layers used by the transformer block\<close>

text \<open>
  Modelled from the spec: the activations of \<^verbatim>\<open>keras.layers.Dense\<close> are the framework's,
  not in this repository (spec: a nonlinearity; softmax, the function converting a vector of
  scores into a probability distribution). \<^verbatim>\<open>"relu"\<close> is \<open>max 0\<close> entry by entry,
  \<^verbatim>\<open>"softmax"\<close> divides the exponential of each score by the sum of the exponentials, and
  a layer given no activation applies none.
\<close>

datatype activation_function = Linear | Relu | Softmax

definition relu :: "vec \<Rightarrow> vec" where
  "relu z = map (max 0) z"

definition softmax :: "vec \<Rightarrow> vec" where
  "softmax z = map (\<lambda>x. exp x / sum_list (map exp z)) z"

fun activate :: "activation_function \<Rightarrow> vec \<Rightarrow> vec" where
  "activate Linear z = z"
| "activate Relu z = relu z"
| "activate Softmax z = softmax z"

text \<open>
  Modelled from the spec: \<^verbatim>\<open>keras.layers.Dense\<close> is the framework's, not in this repository
  (spec: a dense layer, with or without a nonlinearity). As the framework documents it,
  the layer computes \<^verbatim>\<open>activation(dot(input, kernel) + bias)\<close> on the last axis, with a
  kernel of shape (input dimension, units) and a bias of \<open>units\<close> numbers, both created
  at the first call; an input of another dimension raises.
\<close>

record Dense =
  units :: nat
  activation :: activation_function
  kernel :: "real list list"
  bias :: vec

definition Dense_built :: "Dense \<Rightarrow> nat \<Rightarrow> bool" where
  "Dense_built l d \<longleftrightarrow> has_shape (kernel l) d (units l) \<and> length (bias l) = units l"

definition dot :: "vec \<Rightarrow> vec \<Rightarrow> real" where
  "dot a b = sum_list (map2 (*) a b)"

definition vec_mat :: "vec \<Rightarrow> real list list \<Rightarrow> nat \<Rightarrow> vec" where
  "vec_mat x W n = map (\<lambda>j. dot x (map (\<lambda>row. row ! j) W)) [0..<n]"

definition affine :: "vec \<Rightarrow> real list list \<Rightarrow> vec \<Rightarrow> vec" where
  "affine x W b = map2 (+) (vec_mat x W (length b)) b"

definition Dense_call :: "Dense \<Rightarrow> vec \<Rightarrow> error + vec" where
  "Dense_call l x =
     (if length x = length (kernel l)
      then Inr (activate (activation l) (affine x (kernel l) (bias l)))
      else Inl ShapeMismatch)"

definition Dense_call_seq :: "Dense \<Rightarrow> seq \<Rightarrow> error + seq" where
  "Dense_call_seq l xs = traverse (Dense_call l) xs"

text \<open>
  Modelled from the spec: \<^verbatim>\<open>keras.Sequential\<close> is the framework's, not in this repository (spec:
  a two-layer feed-forward network). It applies its layers one after the other.
\<close>

fun Sequential_call :: "Dense list \<Rightarrow> seq \<Rightarrow> error + seq" where
  "Sequential_call [] x = Inr x"
| "Sequential_call (l # ls) x = and_then (Dense_call_seq l x) (Sequential_call ls)"

fun Sequential_built :: "Dense list \<Rightarrow> nat \<Rightarrow> bool" where
  "Sequential_built [] d \<longleftrightarrow> True"
| "Sequential_built (l # ls) d \<longleftrightarrow> Dense_built l d \<and> Sequential_built ls (units l)"

fun Sequential_output_dim :: "Dense list \<Rightarrow> nat \<Rightarrow> nat" where
  "Sequential_output_dim [] d = d"
| "Sequential_output_dim (l # ls) d = Sequential_output_dim ls (units l)"

text \<open>
  Modelled from the spec: \<^verbatim>\<open>keras.layers.LayerNormalization\<close> is the framework's, not
  in this repository (spec: normalization). As the framework documents it, each vector is shifted
  by its mean and divided by the square root of its variance plus \<open>epsilon\<close>, then
  scaled by \<open>gamma\<close> and shifted by \<open>beta\<close>, two vectors of the input's dimension
  created at the first call.
\<close>

record LayerNormalization =
  epsilon :: real
  gamma :: vec
  beta :: vec

definition LayerNormalization_built :: "LayerNormalization \<Rightarrow> nat \<Rightarrow> bool" where
  "LayerNormalization_built l d \<longleftrightarrow> length (gamma l) = d \<and> length (beta l) = d"

definition mean :: "vec \<Rightarrow> real" where
  "mean x = sum_list x / real (length x)"

definition variance :: "vec \<Rightarrow> real" where
  "variance x = mean (map (\<lambda>v. (v - mean x)\<^sup>2) x)"

definition LayerNormalization_call :: "LayerNormalization \<Rightarrow> vec \<Rightarrow> error + vec" where
  "LayerNormalization_call l x =
     (if length x = length (gamma l)
      then Inr (map (\<lambda>(v, g, b). (v - mean x) / sqrt (variance x + epsilon l) * g + b)
                  (zip x (zip (gamma l) (beta l))))
      else Inl ShapeMismatch)"

definition LayerNormalization_call_seq :: "LayerNormalization \<Rightarrow> seq \<Rightarrow> error + seq" where
  "LayerNormalization_call_seq l xs = traverse (LayerNormalization_call l) xs"

text \<open>
  Modelled from the spec: \<^verbatim>\<open>keras.layers.Dropout\<close> is the framework's, not in this repository
  (spec: dropout). As the framework documents it, outside training the layer returns its
  input; in training it sets entries chosen at random to 0 and divides the others by
  \<open>1 - rate\<close>. The random choice is a parameter of the model: \<open>None\<close> outside
  training, and in training \<open>Some keep\<close>, where \<open>keep\<close> tells which entries stay.
\<close>

record Dropout =
  rate :: real

type_synonym mask = "nat \<Rightarrow> bool"

type_synonym seq_mask = "nat \<Rightarrow> nat \<Rightarrow> bool"

definition Dropout_call :: "Dropout \<Rightarrow> mask option \<Rightarrow> vec \<Rightarrow> vec" where
  "Dropout_call l training x =
     (case training of
        None \<Rightarrow> x
      | Some keep \<Rightarrow>
          if rate l > 0
          then map (\<lambda>(i, v). if keep i then v / (1 - rate l) else 0) (enumerate 0 x)
          else x)"

definition Dropout_call_seq :: "Dropout \<Rightarrow> seq_mask option \<Rightarrow> seq \<Rightarrow> seq" where
  "Dropout_call_seq l training xs =
     (case training of
        None \<Rightarrow> xs
      | Some keep \<Rightarrow> map (\<lambda>(p, x). Dropout_call l (Some (keep p)) x) (enumerate 0 xs))"

text \<open>
  Modelled from the spec: \<^verbatim>\<open>keras.layers.MultiHeadAttention\<close> is the framework's, not
  in this repository (spec: each sequence position computes a weighted combination of all
  positions' representations). As the framework documents it, every head projects the
  query sequence to queries and the value sequence to keys and values of \<open>key_dim\<close>
  numbers, weighs the values at each query position by the softmax of the scaled dot
  products of the query with the keys, and projects the result to the query's dimension;
  the heads' results are summed and a bias is added. The weights are created at the first
  call; an input of another dimension raises.
\<close>

record AttentionHead =
  query_kernel :: "real list list"
  query_bias :: vec
  key_kernel :: "real list list"
  key_bias :: vec
  value_kernel :: "real list list"
  value_bias :: vec
  output_kernel :: "real list list"

record MultiHeadAttention =
  att_num_heads :: nat
  att_key_dim :: nat
  att_heads :: "AttentionHead list"
  att_output_bias :: vec

definition AttentionHead_built :: "AttentionHead \<Rightarrow> nat \<Rightarrow> nat \<Rightarrow> bool" where
  "AttentionHead_built h d k \<longleftrightarrow>
     has_shape (query_kernel h) d k \<and> length (query_bias h) = k \<and>
     has_shape (key_kernel h) d k \<and> length (key_bias h) = k \<and>
     has_shape (value_kernel h) d k \<and> length (value_bias h) = k \<and>
     has_shape (output_kernel h) k d"

definition MultiHeadAttention_built :: "MultiHeadAttention \<Rightarrow> nat \<Rightarrow> bool" where
  "MultiHeadAttention_built l d \<longleftrightarrow>
     length (att_heads l) = att_num_heads l \<and>
     list_all (\<lambda>h. AttentionHead_built h d (att_key_dim l)) (att_heads l) \<and>
     length (att_output_bias l) = d"

definition AttentionHead_call :: "nat \<Rightarrow> nat \<Rightarrow> AttentionHead \<Rightarrow> seq \<Rightarrow> seq \<Rightarrow> seq" where
  "AttentionHead_call k d h query val =
     (let keys = map (\<lambda>v. affine v (key_kernel h) (key_bias h)) val;
          vals = map (\<lambda>v. affine v (value_kernel h) (value_bias h)) val
      in map (\<lambda>x.
            let q = map (\<lambda>c. c / sqrt (real k)) (affine x (query_kernel h) (query_bias h));
                scores = softmax (map (dot q) keys)
            in vec_mat (vec_mat scores vals k) (output_kernel h) d)
          query)"

definition MultiHeadAttention_call :: "MultiHeadAttention \<Rightarrow> seq \<Rightarrow> seq \<Rightarrow> error + seq" where
  "MultiHeadAttention_call l query val =
     (let d = length (att_output_bias l)
      in if list_all (\<lambda>x. length x = d) query \<and> list_all (\<lambda>v. length v = d) val
         then let outs = map (\<lambda>h. AttentionHead_call (att_key_dim l) d h query val) (att_heads l)
              in Inr (map (\<lambda>p. map (\<lambda>c. sum_list (map (\<lambda>out. out ! p ! c) outs)
                                        + att_output_bias l ! c) [0..<d])
                        [0..<length query])
         else Inl ShapeMismatch)"

section \<open>The transformer block\<close>

text \<open>
  The notebook's class, lines 56-74:
  \<^verbatim>\<open>
  class TransformerBlock(layers.Layer):
      def __init__(self, embed_dim, num_heads, ff_dim, rate=0.1):
          super().__init__()
          self.att = layers.MultiHeadAttention(num_heads=num_heads, key_dim=embed_dim)
          self.ffn = keras.Sequential(
              [layers.Dense(ff_dim, activation="relu"), layers.Dense(embed_dim),]
          )
          self.layernorm1 = layers.LayerNormalization(epsilon=1e-6)
          self.layernorm2 = layers.LayerNormalization(epsilon=1e-6)
          self.dropout1 = layers.Dropout(rate)
          self.dropout2 = layers.Dropout(rate)

      def call(self, inputs):
          attn_output = self.att(inputs, inputs)
          attn_output = self.dropout1(attn_output)
          out1 = self.layernorm1(inputs + attn_output)
          ffn_output = self.ffn(out1)
          ffn_output = self.dropout2(ffn_output)
          return self.layernorm2(out1 + ffn_output)
  \<close>
  The weights that the framework creates for the sublayers are a parameter \<open>w\<close> of
  the constructor's model, and the rate is always given (the notebook relies on the
  default 0.1, written out where the model is built). \<open>call\<close> takes the random
  choices of its two dropout layers as a second argument: \<open>None\<close> outside training.
\<close>

record TransformerBlock_weights =
  w_att_heads :: "AttentionHead list"
  w_att_output_bias :: vec
  w_ffn1_kernel :: "real list list"
  w_ffn1_bias :: vec
  w_ffn2_kernel :: "real list list"
  w_ffn2_bias :: vec
  w_layernorm1_gamma :: vec
  w_layernorm1_beta :: vec
  w_layernorm2_gamma :: vec
  w_layernorm2_beta :: vec

record TransformerBlock =
  att :: MultiHeadAttention
  ffn :: "Dense list"
  layernorm1 :: LayerNormalization
  layernorm2 :: LayerNormalization
  dropout1 :: Dropout
  dropout2 :: Dropout

definition TransformerBlock_init ::
  "nat \<Rightarrow> nat \<Rightarrow> nat \<Rightarrow> real \<Rightarrow> TransformerBlock_weights \<Rightarrow> TransformerBlock" where
  "TransformerBlock_init embed_dim num_heads ff_dim r w =
     \<lparr>att = \<lparr>att_num_heads = num_heads, att_key_dim = embed_dim,
              att_heads = w_att_heads w, att_output_bias = w_att_output_bias w\<rparr>,
      ffn = [\<lparr>units = ff_dim, activation = Relu,
               kernel = w_ffn1_kernel w, bias = w_ffn1_bias w\<rparr>,
             \<lparr>units = embed_dim, activation = Linear,
               kernel = w_ffn2_kernel w, bias = w_ffn2_bias w\<rparr>],
      layernorm1 = \<lparr>epsilon = 1 / 10 ^ 6,
                     gamma = w_layernorm1_gamma w, beta = w_layernorm1_beta w\<rparr>,
      layernorm2 = \<lparr>epsilon = 1 / 10 ^ 6,
                     gamma = w_layernorm2_gamma w, beta = w_layernorm2_beta w\<rparr>,
      dropout1 = \<lparr>rate = r\<rparr>,
      dropout2 = \<lparr>rate = r\<rparr>\<rparr>"

text \<open>
  The block after its first call on inputs of dimension \<open>d\<close>: the framework has
  created the weights of every sublayer for the dimension of what that sublayer is given,
  \<open>layernorm2\<close> for the dimension of \<open>out1 + ffn_output\<close>. The sum of vectors
  of \<open>a\<close> and of \<open>b\<close> numbers, where these are compatible (equal, or one of them
  1), has \<open>broadcast_dim a b\<close> numbers.
\<close>

definition broadcast_dim :: "nat \<Rightarrow> nat \<Rightarrow> nat" where
  "broadcast_dim a b = (if a = 1 then b else a)"

definition TransformerBlock_built :: "TransformerBlock \<Rightarrow> nat \<Rightarrow> bool" where
  "TransformerBlock_built self d \<longleftrightarrow>
     MultiHeadAttention_built (att self) d \<and>
     Sequential_built (ffn self) d \<and>
     LayerNormalization_built (layernorm1 self) d \<and>
     LayerNormalization_built (layernorm2 self)
       (broadcast_dim d (Sequential_output_dim (ffn self) d))"

definition TransformerBlock_call ::
  "TransformerBlock \<Rightarrow> (seq_mask \<times> seq_mask) option \<Rightarrow> seq \<Rightarrow> error + seq" where
  "TransformerBlock_call self training inputs =
     and_then (MultiHeadAttention_call (att self) inputs inputs) (\<lambda>attn_output.
       let attn_output = Dropout_call_seq (dropout1 self) (map_option fst training) attn_output
       in and_then (tensor_add inputs attn_output) (\<lambda>sum1.
          and_then (LayerNormalization_call_seq (layernorm1 self) sum1) (\<lambda>out1.
          and_then (Sequential_call (ffn self) out1) (\<lambda>ffn_output.
            let ffn_output = Dropout_call_seq (dropout2 self) (map_option snd training) ffn_output
            in and_then (tensor_add out1 ffn_output) (\<lambda>sum2.
               LayerNormalization_call_seq (layernorm2 self) sum2)))))"

text \<open>
  The six steps as the spec words them, each a function of its own, for a block of
  embedding dimension \<open>embed_dim\<close> and feed-forward dimension \<open>ff_dim\<close>, with the
  weights \<open>w\<close>, the dropout rate \<open>r\<close> and the random choices \<open>training\<close>.
\<close>

definition step1_self_attention ::
  "nat \<Rightarrow> nat \<Rightarrow> TransformerBlock_weights \<Rightarrow> seq \<Rightarrow> error + seq" where
  "step1_self_attention embed_dim num_heads w inputs =
     MultiHeadAttention_call
       \<lparr>att_num_heads = num_heads, att_key_dim = embed_dim,
        att_heads = w_att_heads w, att_output_bias = w_att_output_bias w\<rparr>
       inputs inputs"

definition step2_dropout :: "real \<Rightarrow> seq_mask option \<Rightarrow> seq \<Rightarrow> seq" where
  "step2_dropout r keep a = Dropout_call_seq \<lparr>rate = r\<rparr> keep a"

definition step3_residual_norm :: "TransformerBlock_weights \<Rightarrow> seq \<Rightarrow> seq \<Rightarrow> error + seq" where
  "step3_residual_norm w inputs a =
     and_then (tensor_add inputs a)
       (LayerNormalization_call_seq
          \<lparr>epsilon = 1 / 10 ^ 6, gamma = w_layernorm1_gamma w, beta = w_layernorm1_beta w\<rparr>)"

definition step4_feed_forward ::
  "nat \<Rightarrow> nat \<Rightarrow> TransformerBlock_weights \<Rightarrow> seq \<Rightarrow> error + seq" where
  "step4_feed_forward embed_dim ff_dim w out1 =
     and_then
       (Dense_call_seq \<lparr>units = ff_dim, activation = Relu,
                       kernel = w_ffn1_kernel w, bias = w_ffn1_bias w\<rparr> out1)
       (Dense_call_seq \<lparr>units = embed_dim, activation = Linear,
                       kernel = w_ffn2_kernel w, bias = w_ffn2_bias w\<rparr>)"

definition step5_dropout :: "real \<Rightarrow> seq_mask option \<Rightarrow> seq \<Rightarrow> seq" where
  "step5_dropout r keep f = Dropout_call_seq \<lparr>rate = r\<rparr> keep f"

definition step6_residual_norm :: "TransformerBlock_weights \<Rightarrow> seq \<Rightarrow> seq \<Rightarrow> error + seq" where
  "step6_residual_norm w out1 f =
     and_then (tensor_add out1 f)
       (LayerNormalization_call_seq
          \<lparr>epsilon = 1 / 10 ^ 6, gamma = w_layernorm2_gamma w, beta = w_layernorm2_beta w\<rparr>)"

definition six_steps ::
  "nat \<Rightarrow> nat \<Rightarrow> nat \<Rightarrow> real \<Rightarrow> TransformerBlock_weights \<Rightarrow>
     (seq_mask \<times> seq_mask) option \<Rightarrow> seq \<Rightarrow> error + seq" where
  "six_steps embed_dim num_heads ff_dim r w training inputs =
     and_then (step1_self_attention embed_dim num_heads w inputs) (\<lambda>s1.
     and_then (Inr (step2_dropout r (map_option fst training) s1)) (\<lambda>s2.
     and_then (step3_residual_norm w inputs s2) (\<lambda>s3.
     and_then (step4_feed_forward embed_dim ff_dim w s3) (\<lambda>s4.
     and_then (Inr (step5_dropout r (map_option snd training) s4)) (\<lambda>s5.
     step6_residual_norm w s3 s5)))))"

section \<open>Dataset preparation\<close>

text \<open>
  The notebook, lines 142-148:
  \<^verbatim>\<open>
  vocab_size = 20000  # Only consider the top 20k words
  maxlen = 200  # Only consider the first 200 words of each movie review
  (x_train, y_train), (x_val, y_val) = keras.datasets.imdb.load_data(num_words=vocab_size)
  print(len(x_train), "Training sequences")
  print(len(x_val), "Validation sequences")
  x_train = keras.utils.pad_sequences(x_train, maxlen=maxlen)
  x_val = keras.utils.pad_sequences(x_val, maxlen=maxlen)
  \<close>
\<close>

definition vocab_size :: nat where
  "vocab_size = 20000"

definition maxlen :: nat where
  "maxlen = 200"

text \<open>
  Modelled from the spec: \<^verbatim>\<open>keras.datasets.imdb.load_data\<close> is the framework's, not
  in this repository (spec: a fixed, pre-tokenized dataset; token ids in [0, vocab_size)). The
  archive's content is a parameter: the reviews as lists of word ranks with their labels,
  taken in the order the framework's seeded shuffle gives them. As the framework documents
  it, with its defaults \<^verbatim>\<open>start_char=1, oov_char=2, index_from=3, skip_top=0\<close> the
  function shifts every rank by \<open>index_from\<close>, puts \<open>start_char\<close> in front of every
  review, and replaces every id that is not in \<open>[skip_top, num_words)\<close> by
  \<open>oov_char\<close>. (Not modelled: \<open>num_words\<close> absent, which the notebook does not use.)
\<close>

record imdb_archive =
  archive_x_train :: "int list list"
  archive_y_train :: "int list"
  archive_x_test :: "int list list"
  archive_y_test :: "int list"

definition load_data ::
  "imdb_archive \<Rightarrow> nat \<Rightarrow> (int list list \<times> int list) \<times> (int list list \<times> int list)" where
  "load_data f num_words =
     (let start_char = 1; oov_char = 2; index_from = 3; skip_top = 0;
          x_train = map (\<lambda>x. start_char # map (\<lambda>w. w + index_from) x) (archive_x_train f);
          x_test = map (\<lambda>x. start_char # map (\<lambda>w. w + index_from) x) (archive_x_test f);
          xs = map (map (\<lambda>w. if skip_top \<le> w \<and> w < int num_words then w else oov_char))
                 (x_train @ x_test);
          idx = length x_train
      in ((take idx xs, archive_y_train f), (drop idx xs, archive_y_test f)))"

text \<open>
  Modelled from the spec: \<^verbatim>\<open>keras.utils.pad_sequences\<close> is the framework's, not in this
  repository (spec: padded/truncated to 200). As the framework documents it, with
  \<^verbatim>\<open>padding\<close> and \<^verbatim>\<open>truncating\<close> either \<^verbatim>\<open>"pre"\<close> or \<^verbatim>\<open>"post"\<close> and both
  \<^verbatim>\<open>"pre"\<close> by default, and the padding value 0 by default: every row of the result
  starts as \<open>maxlen\<close> copies of the value; an empty sequence leaves its row so; another
  sequence is cut to \<^verbatim>\<open>s[-maxlen:]\<close> (pre) or \<^verbatim>\<open>s[:maxlen]\<close> (post) and written at
  the end of its row (pre) or at its start (post). For \<open>maxlen = 0\<close> Python's
  \<^verbatim>\<open>s[-0:]\<close> is all of \<open>s\<close>, which does not fit the row: the assignment raises.
\<close>

datatype side = Pre | Post

definition pad_sequence :: "nat \<Rightarrow> side \<Rightarrow> side \<Rightarrow> int \<Rightarrow> int list \<Rightarrow> error + int list" where
  "pad_sequence n padding truncating v s =
     (if s = [] then Inr (replicate n v)
      else
        let trunc = (case truncating of
                       Pre \<Rightarrow> if n = 0 then s else drop (length s - n) s
                     | Post \<Rightarrow> take n s)
        in if n < length trunc then Inl ShapeMismatch
           else (case padding of
                   Post \<Rightarrow> Inr (trunc @ replicate (n - length trunc) v)
                 | Pre \<Rightarrow> Inr (replicate (n - length trunc) v @ trunc)))"

definition pad_sequences :: "int list list \<Rightarrow> nat \<Rightarrow> error + int list list" where
  "pad_sequences sequences n = traverse (pad_sequence n Pre Pre 0) sequences"

definition prepare_dataset ::
  "imdb_archive \<Rightarrow> error + ((int list list \<times> int list) \<times> (int list list \<times> int list))" where
  "prepare_dataset f =
     (case load_data f vocab_size of
        ((x_train, y_train), (x_val, y_val)) \<Rightarrow>
          and_then (pad_sequences x_train maxlen) (\<lambda>x_train.
          and_then (pad_sequences x_val maxlen) (\<lambda>x_val.
          Inr ((x_train, y_train), (x_val, y_val)))))"

text \<open>
  What \<open>load_data\<close> makes of one review of the archive.
\<close>

definition clip_to_vocabulary :: "nat \<Rightarrow> int list \<Rightarrow> int list" where
  "clip_to_vocabulary n x = map (\<lambda>w. if 0 \<le> w \<and> w < int n then w else 2) (1 # map (\<lambda>w. w + 3) x)"

text \<open>
  The row that \<open>pad_sequences\<close> with its defaults makes of one sequence: zeros in
  front, then the sequence without what exceeds \<open>n\<close> at its start.
\<close>

definition pre_padded :: "nat \<Rightarrow> int list \<Rightarrow> int list" where
  "pre_padded n s = replicate (n - length s) 0 @ drop (length s - n) s"

section \<open>The classifier model\<close>

text \<open>
  The notebook, lines 172-187:
  \<^verbatim>\<open>
  embed_dim = 32  # Embedding size for each token
  num_heads = 2  # Number of attention heads
  ff_dim = 32  # Hidden layer size in feed forward network inside transformer

  inputs = layers.Input(shape=(maxlen,))
  embedding_layer = TokenAndPositionEmbedding(maxlen, vocab_size, embed_dim)
  x = embedding_layer(inputs)
  transformer_block = TransformerBlock(embed_dim, num_heads, ff_dim)
  x = transformer_block(x)
  x = layers.GlobalAveragePooling1D()(x)
  x = layers.Dropout(0.1)(x)
  x = layers.Dense(20, activation="relu")(x)
  x = layers.Dropout(0.1)(x)
  outputs = layers.Dense(2, activation="softmax")(x)

  model = keras.Model(inputs=inputs, outputs=outputs)
  \<close>
\<close>

definition embed_dim :: nat where
  "embed_dim = 32"

definition num_heads :: nat where
  "num_heads = 2"

definition ff_dim :: nat where
  "ff_dim = 32"

text \<open>
  Modelled from the spec: \<^verbatim>\<open>keras.layers.GlobalAveragePooling1D\<close> is the framework's,
  not in this repository (spec: average-pool across sequence positions to one vector). Each
  entry of the result is the mean of that entry over the positions. Over no position at
  all the floating-point mean is 0/0, not a number: the model makes it the error
  \<open>NotANumber\<close>.
\<close>

definition GlobalAveragePooling1D_call :: "seq \<Rightarrow> error + vec" where
  "GlobalAveragePooling1D_call xs =
     (if xs = [] then Inl NotANumber
      else Inr (map (\<lambda>c. sum_list (map (\<lambda>x. x ! c) xs) / real (length xs))
                  [0..<length (hd xs)]))"

text \<open>
  The layers after the transformer block (lines 181-185) are the classifier head. Its two
  dense layers' weights are parameters; its two dropout layers take their random choices
  as the argument \<open>training\<close>, \<open>None\<close> outside training.
\<close>

record ClassifierHead =
  head_dropout1 :: Dropout
  head_dense1 :: Dense
  head_dropout2 :: Dropout
  head_dense2 :: Dense

definition ClassifierHead_init ::
  "real list list \<Rightarrow> vec \<Rightarrow> real list list \<Rightarrow> vec \<Rightarrow> ClassifierHead" where
  "ClassifierHead_init kernel1 bias1 kernel2 bias2 =
     \<lparr>head_dropout1 = \<lparr>rate = 1 / 10\<rparr>,
      head_dense1 = \<lparr>units = 20, activation = Relu, kernel = kernel1, bias = bias1\<rparr>,
      head_dropout2 = \<lparr>rate = 1 / 10\<rparr>,
      head_dense2 = \<lparr>units = 2, activation = Softmax, kernel = kernel2, bias = bias2\<rparr>\<rparr>"

definition ClassifierHead_built :: "ClassifierHead \<Rightarrow> nat \<Rightarrow> bool" where
  "ClassifierHead_built h d \<longleftrightarrow>
     Dense_built (head_dense1 h) d \<and> Dense_built (head_dense2 h) (units (head_dense1 h))"

definition ClassifierHead_call ::
  "ClassifierHead \<Rightarrow> (mask \<times> mask) option \<Rightarrow> seq \<Rightarrow> error + vec" where
  "ClassifierHead_call h training x =
     and_then (GlobalAveragePooling1D_call x) (\<lambda>x.
       let x = Dropout_call (head_dropout1 h) (map_option fst training) x
       in and_then (Dense_call (head_dense1 h) x) (\<lambda>x.
            let x = Dropout_call (head_dropout2 h) (map_option snd training) x
            in Dense_call (head_dense2 h) x))"

text \<open>
  The steps of the head as the spec words them, on the weights of the two dense layers.
\<close>

definition head_steps ::
  "real list list \<Rightarrow> vec \<Rightarrow> real list list \<Rightarrow> vec \<Rightarrow> (mask \<times> mask) option \<Rightarrow> seq \<Rightarrow> error + vec" where
  "head_steps kernel1 bias1 kernel2 bias2 training x =
     and_then (GlobalAveragePooling1D_call x) (\<lambda>pooled.
     and_then (Inr (Dropout_call \<lparr>rate = 1 / 10\<rparr> (map_option fst training) pooled)) (\<lambda>d1.
     and_then (if length d1 = length kernel1 then Inr (relu (affine d1 kernel1 bias1))
               else Inl ShapeMismatch) (\<lambda>h1.
     and_then (Inr (Dropout_call \<lparr>rate = 1 / 10\<rparr> (map_option snd training) h1)) (\<lambda>d2.
     if length d2 = length kernel2 then Inr (softmax (affine d2 kernel2 bias2))
     else Inl ShapeMismatch))))"

definition is_distribution :: "vec \<Rightarrow> bool" where
  "is_distribution p \<longleftrightarrow> list_all (\<lambda>v. 0 \<le> v \<and> v \<le> 1) p \<and> sum_list p = 1"

text \<open>
  Modelled from the spec: \<^verbatim>\<open>layers.Input\<close> and \<^verbatim>\<open>keras.Model\<close> are the framework's,
  not in this repository (spec: composed via a pre-existing functional model-building API). The
  model applies, to every sample of a batch, the layers in the order in which the notebook
  chains them from \<open>inputs\<close> to \<open>outputs\<close>; in training every sample has random
  choices of its own. The input is declared with the shape \<^verbatim>\<open>(maxlen,)\<close>: the model is
  for samples of that length, and the framework's current versions refuse any other (older
  ones warn and go on), as the model below does.
\<close>

record Model_weights =
  w_token_table :: "real list list"
  w_pos_table :: "real list list"
  w_block :: TransformerBlock_weights
  w_dense1_kernel :: "real list list"
  w_dense1_bias :: vec
  w_dense2_kernel :: "real list list"
  w_dense2_bias :: vec

record Model =
  embedding_layer :: TokenAndPositionEmbedding
  transformer_block :: TransformerBlock
  head :: ClassifierHead

type_synonym training_choices = "(seq_mask \<times> seq_mask) \<times> (mask \<times> mask)"

definition Model_init :: "Model_weights \<Rightarrow> Model" where
  "Model_init w =
     \<lparr>embedding_layer =
        TokenAndPositionEmbedding_init maxlen vocab_size embed_dim (w_token_table w) (w_pos_table w),
      transformer_block = TransformerBlock_init embed_dim num_heads ff_dim (1 / 10) (w_block w),
      head = ClassifierHead_init (w_dense1_kernel w) (w_dense1_bias w)
               (w_dense2_kernel w) (w_dense2_bias w)\<rparr>"

definition Model_built :: "Model \<Rightarrow> bool" where
  "Model_built m \<longleftrightarrow>
     TokenAndPositionEmbedding_built (embedding_layer m) \<and>
     TransformerBlock_built (transformer_block m) embed_dim \<and>
     ClassifierHead_built (head m) embed_dim"

definition Model_call_sample :: "Model \<Rightarrow> training_choices option \<Rightarrow> int list \<Rightarrow> error + vec" where
  "Model_call_sample m training inputs =
     (if length inputs = maxlen
      then and_then (TokenAndPositionEmbedding_call (embedding_layer m) inputs) (\<lambda>x.
           and_then (TransformerBlock_call (transformer_block m) (map_option fst training) x) (\<lambda>x.
           ClassifierHead_call (head m) (map_option snd training) x))
      else Inl ShapeMismatch)"

definition Model_call ::
  "Model \<Rightarrow> (nat \<Rightarrow> training_choices) option \<Rightarrow> int list list \<Rightarrow> error + real list list" where
  "Model_call m training batch =
     traverse (\<lambda>(i, inputs). Model_call_sample m (map_option (\<lambda>t. t i) training) inputs)
       (enumerate 0 batch)"

section \<open>Concrete layers and inputs for the examples\<close>

text \<open>
  An embedding layer small enough to compute with by hand: at most 3 positions, 4 token
  ids, vectors of 2 numbers.
\<close>

definition example_embedding :: TokenAndPositionEmbedding where
  "example_embedding =
     TokenAndPositionEmbedding_init 3 4 2 [[1, 0], [0, 1], [1, 1], [2, 2]] [[10, 20], [30, 40], [50, 60]]"

text \<open>
  An archive of one short training review and one long validation review.
\<close>

definition example_archive :: imdb_archive where
  "example_archive =
     \<lparr>archive_x_train = [[4, 30000, 7]], archive_y_train = [1],
      archive_x_test = [replicate 300 19996 @ [19997]], archive_y_test = [0]\<rparr>"

text \<open>
  A block small enough to check by hand: embedding dimension 2, one attention head,
  feed-forward dimension 3, with the weights the framework would have created on inputs of
  dimension 2.
\<close>

definition example_head :: AttentionHead where
  "example_head =
     \<lparr>query_kernel = [[1, 0], [0, 1]], query_bias = [0, 0],
      key_kernel = [[1, 0], [0, 1]], key_bias = [0, 0],
      value_kernel = [[1, 0], [0, 1]], value_bias = [0, 0],
      output_kernel = [[1, 0], [0, 1]]\<rparr>"

definition example_block_weights :: TransformerBlock_weights where
  "example_block_weights =
     \<lparr>w_att_heads = [example_head], w_att_output_bias = [0, 0],
      w_ffn1_kernel = [[1, 0, 1], [0, 1, 1]], w_ffn1_bias = [0, 0, 0],
      w_ffn2_kernel = [[1, 0], [0, 1], [1, 1]], w_ffn2_bias = [0, 0],
      w_layernorm1_gamma = [1, 1], w_layernorm1_beta = [0, 0],
      w_layernorm2_gamma = [1, 1], w_layernorm2_beta = [0, 0]\<rparr>"

definition example_block :: TransformerBlock where
  "example_block = TransformerBlock_init 2 1 3 (1 / 10) example_block_weights"

text \<open>
  The same configuration called first on inputs of dimension 1: the framework creates the
  attention weights, the first normalization and the first dense kernel for dimension 1,
  and the second normalization for the dimension of \<open>out1 + ffn_output\<close>, which is 2.
\<close>

definition narrow_head :: AttentionHead where
  "narrow_head =
     \<lparr>query_kernel = [[1, 0]], query_bias = [0, 0],
      key_kernel = [[1, 0]], key_bias = [0, 0],
      value_kernel = [[0, 1]], value_bias = [0, 0],
      output_kernel = [[1], [1]]\<rparr>"

definition narrow_block_weights :: TransformerBlock_weights where
  "narrow_block_weights =
     \<lparr>w_att_heads = [narrow_head], w_att_output_bias = [0],
      w_ffn1_kernel = [[1, 0, 1]], w_ffn1_bias = [0, 0, 0],
      w_ffn2_kernel = [[1, 0], [0, 1], [1, 1]], w_ffn2_bias = [0, 0],
      w_layernorm1_gamma = [1], w_layernorm1_beta = [0],
      w_layernorm2_gamma = [1, 1], w_layernorm2_beta = [3, 4]\<rparr>"

definition narrow_block :: TransformerBlock where
  "narrow_block = TransformerBlock_init 2 1 3 (1 / 10) narrow_block_weights"

text \<open>
  A classifier head for inputs of dimension 2, whose last layer has the kernel and the
  bias 0: its two scores are 0 whatever the input.
\<close>

definition example_head_layers :: ClassifierHead where
  "example_head_layers =
     ClassifierHead_init (replicate 2 (replicate 20 1)) (replicate 20 0)
       (replicate 20 [0, 0]) [0, 0]"

text \<open>
  Weights of the shapes the notebook's model has (20000 token rows, 200 position rows,
  dimension 32, two heads, 20 hidden units, 2 classes), all entries 0 but the
  normalizations' scales.
\<close>

definition zero_head :: AttentionHead where
  "zero_head =
     \<lparr>query_kernel = replicate 32 (replicate 32 0), query_bias = replicate 32 0,
      key_kernel = replicate 32 (replicate 32 0), key_bias = replicate 32 0,
      value_kernel = replicate 32 (replicate 32 0), value_bias = replicate 32 0,
      output_kernel = replicate 32 (replicate 32 0)\<rparr>"

definition example_model_weights :: Model_weights where
  "example_model_weights =
     \<lparr>w_token_table = replicate 20000 (replicate 32 0),
      w_pos_table = replicate 200 (replicate 32 0),
      w_block =
        \<lparr>w_att_heads = replicate 2 zero_head, w_att_output_bias = replicate 32 0,
         w_ffn1_kernel = replicate 32 (replicate 32 0), w_ffn1_bias = replicate 32 0,
         w_ffn2_kernel = replicate 32 (replicate 32 0), w_ffn2_bias = replicate 32 0,
         w_layernorm1_gamma = replicate 32 1, w_layernorm1_beta = replicate 32 0,
         w_layernorm2_gamma = replicate 32 1, w_layernorm2_beta = replicate 32 0\<rparr>,
      w_dense1_kernel = replicate 32 (replicate 20 0), w_dense1_bias = replicate 20 0,
      w_dense2_kernel = replicate 20 (replicate 2 0), w_dense2_bias = replicate 2 0\<rparr>"

section \<open>Sequencing and shapes: basic facts\<close>

lemma and_then_Inr [simp]: "and_then (Inr v) f = f v"
  by (simp add: and_then_def)

lemma and_then_Inl [simp]: "and_then (Inl e) f = Inl e"
  by (simp add: and_then_def)

lemma and_then_eq_Inr:
  "and_then r f = Inr w \<longleftrightarrow> (\<exists>v. r = Inr v \<and> f v = Inr w)"
  by (cases r) simp_all

lemma and_then_eq_Inl:
  "and_then r f = Inl e \<longleftrightarrow> r = Inl e \<or> (\<exists>v. r = Inr v \<and> f v = Inl e)"
  by (cases r) auto

lemma traverse_map:
  "(\<And>x. x \<in> set xs \<Longrightarrow> f x = Inr (g x)) \<Longrightarrow> traverse f xs = Inr (map g xs)"
  by (induction xs) simp_all

lemma traverse_Inr_D:
  "traverse f xs = Inr ys \<Longrightarrow>
     length ys = length xs \<and> (\<forall>i<length xs. f (xs ! i) = Inr (ys ! i))"
proof (induction xs arbitrary: ys)
  case Nil
  then show ?case by simp
next
  case (Cons x xs)
  from Cons.prems obtain y ys' where
    y: "f x = Inr y" and ys': "traverse f xs = Inr ys'" and eq: "ys = y # ys'"
    by (auto simp: and_then_eq_Inr)
  from Cons.IH [OF ys'] have
    len: "length ys' = length xs" and nth: "\<forall>i<length xs. f (xs ! i) = Inr (ys' ! i)"
    by simp_all
  show ?case
  proof (intro conjI allI impI)
    show "length ys = length (x # xs)" using len eq by simp
  next
    fix i assume "i < length (x # xs)"
    then show "f ((x # xs) ! i) = Inr (ys ! i)"
      using y nth eq by (cases i) simp_all
  qed
qed

lemma traverse_Inl_D:
  "traverse f xs = Inl e \<Longrightarrow> \<exists>x\<in>set xs. f x = Inl e"
  by (induction xs) (auto simp: and_then_eq_Inl)

lemma traverse_Inl_I:
  "x \<in> set xs \<Longrightarrow> f x = Inl e \<Longrightarrow> \<exists>e'. traverse f xs = Inl e'"
proof (induction xs)
  case Nil
  then show ?case by simp
next
  case (Cons a xs)
  show ?case
  proof (cases "f a")
    case (Inl e')
    then show ?thesis by simp
  next
    case (Inr v)
    with Cons.prems have "x \<in> set xs" by auto
    with Cons.IH Cons.prems(2) obtain e' where "traverse f xs = Inl e'" by blast
    with Inr show ?thesis by simp
  qed
qed

lemma has_shape_nth:
  "has_shape t n d \<Longrightarrow> i < n \<Longrightarrow> length (t ! i) = d"
  by (simp add: has_shape_def list_all_length)

lemma add_vec_same_length:
  "length a = length b \<Longrightarrow> add_vec a b = Inr (map2 (+) a b)"
  by (simp add: add_vec_def)

lemma tensor_add_same_shape:
  assumes "length a = length b" and "\<forall>i<length a. length (a ! i) = length (b ! i)"
  shows "tensor_add a b = Inr (map (\<lambda>(x, y). map2 (+) x y) (zip a b))"
proof -
  have "traverse (\<lambda>(x, y). add_vec x y) (zip a b) = Inr (map (\<lambda>(x, y). map2 (+) x y) (zip a b))"
  proof (rule traverse_map)
    fix p assume "p \<in> set (zip a b)"
    then obtain i where "i < length a" "p = (a ! i, b ! i)"
      using assms(1) by (auto simp: set_zip)
    with assms(2) show "(case p of (x, y) \<Rightarrow> add_vec x y) = Inr (case p of (x, y) \<Rightarrow> map2 (+) x y)"
      by (simp add: add_vec_same_length)
  qed
  with assms(1) show ?thesis by (simp add: tensor_add_def)
qed

section \<open>The embedding layer: facts\<close>

lemma Embedding_lookup_Inl:
  "Embedding_lookup e i = Inl err \<Longrightarrow> err = InvalidIndex"
  by (simp add: Embedding_lookup_def split: if_splits)

lemma Embedding_call_in_range:
  assumes "list_all (\<lambda>i. 0 \<le> i \<and> i < int (length (embeddings e))) ids"
  shows "Embedding_call e ids = Inr (map (\<lambda>i. embeddings e ! nat i) ids)"
  unfolding Embedding_call_def
proof (rule traverse_map)
  fix i assume "i \<in> set ids"
  with assms have "0 \<le> i \<and> i < int (length (embeddings e))"
    by (simp add: list_all_iff)
  then show "Embedding_lookup e i = Inr (embeddings e ! nat i)"
    by (simp add: Embedding_lookup_def)
qed

lemma Embedding_call_Inr_D:
  assumes "Embedding_call e ids = Inr rows"
  shows "list_all (\<lambda>i. 0 \<le> i \<and> i < int (length (embeddings e))) ids"
proof -
  from traverse_Inr_D [OF assms [unfolded Embedding_call_def]]
  have nth: "\<forall>k<length ids. Embedding_lookup e (ids ! k) = Inr (rows ! k)" by simp
  show ?thesis
    unfolding list_all_length
  proof (intro allI impI)
    fix k assume "k < length ids"
    with nth have "Embedding_lookup e (ids ! k) = Inr (rows ! k)" by simp
    then show "0 \<le> ids ! k \<and> ids ! k < int (length (embeddings e))"
      by (simp add: Embedding_lookup_def split: if_splits)
  qed
qed

lemma Embedding_call_Inl_D:
  assumes "Embedding_call e ids = Inl err"
  shows "err = InvalidIndex \<and> \<not> list_all (\<lambda>i. 0 \<le> i \<and> i < int (length (embeddings e))) ids"
proof -
  from traverse_Inl_D [OF assms [unfolded Embedding_call_def]]
  obtain i where i: "i \<in> set ids" "Embedding_lookup e i = Inl err" by blast
  then have "err = InvalidIndex" by (simp add: Embedding_lookup_Inl)
  moreover have "\<not> list_all (\<lambda>i. 0 \<le> i \<and> i < int (length (embeddings e))) ids"
    using Embedding_call_in_range [of e ids] assms by auto
  ultimately show ?thesis by simp
qed

lemma Embedding_call_out_of_range:
  assumes "\<not> list_all (\<lambda>i. 0 \<le> i \<and> i < int (length (embeddings e))) ids"
  shows "Embedding_call e ids = Inl InvalidIndex"
proof (cases "Embedding_call e ids")
  case (Inl err)
  with Embedding_call_Inl_D [OF Inl] show ?thesis by simp
next
  case (Inr rows)
  with Embedding_call_Inr_D [OF Inr] assms show ?thesis by simp
qed

lemma positions_in_range:
  "list_all (\<lambda>i. 0 \<le> i \<and> i < int n) (map int [0..<L]) \<longleftrightarrow> L \<le> n"
proof
  assume a: "list_all (\<lambda>i. 0 \<le> i \<and> i < int n) (map int [0..<L])"
  show "L \<le> n"
  proof (cases L)
    case 0
    then show ?thesis by simp
  next
    case (Suc k)
    then have "int k \<in> set (map int [0..<L])" by simp
    with a have "int k < int n" unfolding list_all_iff by blast
    with Suc show ?thesis by simp
  qed
next
  assume "L \<le> n"
  then show "list_all (\<lambda>i. 0 \<le> i \<and> i < int n) (map int [0..<L])"
    by (auto simp: list_all_iff)
qed

lemma TokenAndPositionEmbedding_call_valid:
  assumes built: "TokenAndPositionEmbedding_built self"
    and ids: "ids_in_range (input_dim (token_emb self)) x"
    and len: "length x \<le> input_dim (pos_emb self)"
  shows "TokenAndPositionEmbedding_call self x = Inr (token_plus_position self x)"
proof -
  let ?tok = "embeddings (token_emb self)" and ?pos = "embeddings (pos_emb self)"
  let ?d = "output_dim (token_emb self)"
  from built have tok: "has_shape ?tok (input_dim (token_emb self)) ?d"
    and pos: "has_shape ?pos (input_dim (pos_emb self)) ?d"
    by (auto simp: TokenAndPositionEmbedding_built_def Embedding_built_def)
  have ltok: "length ?tok = input_dim (token_emb self)"
    and lpos: "length ?pos = input_dim (pos_emb self)"
    using tok pos by (simp_all add: has_shape_def)
  have P: "Embedding_call (pos_emb self) (map int [0..<length x])
             = Inr (map (\<lambda>i. ?pos ! nat i) (map int [0..<length x]))"
    by (rule Embedding_call_in_range) (simp add: positions_in_range lpos len)
  have T: "Embedding_call (token_emb self) x = Inr (map (\<lambda>i. ?tok ! nat i) x)"
    by (rule Embedding_call_in_range) (use ids in \<open>simp add: ids_in_range_def ltok\<close>)
  let ?T = "map (\<lambda>i. ?tok ! nat i) x" and ?P = "map (\<lambda>i. ?pos ! nat i) (map int [0..<length x])"
  have same: "\<forall>i<length ?T. length (?T ! i) = length (?P ! i)"
  proof (intro allI impI)
    fix i assume i: "i < length ?T"
    then have ix: "i < length x" by simp
    with ids have "0 \<le> x ! i \<and> x ! i < int (input_dim (token_emb self))"
      by (simp add: ids_in_range_def list_all_length)
    then have "nat (x ! i) < input_dim (token_emb self)" by linarith
    with tok have a: "length (?tok ! nat (x ! i)) = ?d" by (rule has_shape_nth)
    from ix len have "i < input_dim (pos_emb self)" by simp
    with pos have b: "length (?pos ! i) = ?d" by (rule has_shape_nth)
    from a b ix show "length (?T ! i) = length (?P ! i)" by simp
  qed
  have "tensor_add ?T ?P = Inr (map (\<lambda>(a, b). map2 (+) a b) (zip ?T ?P))"
    by (rule tensor_add_same_shape) (use same in simp_all)
  also have "map (\<lambda>(a, b). map2 (+) a b) (zip ?T ?P) = token_plus_position self x"
    by (rule nth_equalityI) (simp_all add: token_plus_position_def)
  finally have "tensor_add ?T ?P = Inr (token_plus_position self x)" .
  with P T show ?thesis
    by (simp add: TokenAndPositionEmbedding_call_def Let_def)
qed

lemma example_embedding_built: "TokenAndPositionEmbedding_built example_embedding"
  by (simp add: example_embedding_def TokenAndPositionEmbedding_init_def
      TokenAndPositionEmbedding_built_def Embedding_built_def has_shape_def)

lemma TokenAndPositionEmbedding_call_Inr_D:
  assumes built: "TokenAndPositionEmbedding_built self"
    and ret: "TokenAndPositionEmbedding_call self x = Inr out"
  shows "ids_in_range (input_dim (token_emb self)) x \<and> length x \<le> input_dim (pos_emb self)"
proof -
  from built have ltok: "length (embeddings (token_emb self)) = input_dim (token_emb self)"
    and lpos: "length (embeddings (pos_emb self)) = input_dim (pos_emb self)"
    by (auto simp: TokenAndPositionEmbedding_built_def Embedding_built_def has_shape_def)
  from ret obtain P T where
    P: "Embedding_call (pos_emb self) (map int [0..<length x]) = Inr P" and
    T: "Embedding_call (token_emb self) x = Inr T"
    by (auto simp: TokenAndPositionEmbedding_call_def Let_def and_then_eq_Inr)
  from Embedding_call_Inr_D [OF P] have "length x \<le> input_dim (pos_emb self)"
    by (simp add: positions_in_range lpos)
  moreover from Embedding_call_Inr_D [OF T] have "ids_in_range (input_dim (token_emb self)) x"
    by (simp add: ids_in_range_def ltok)
  ultimately show ?thesis by simp
qed

lemma TokenAndPositionEmbedding_call_too_long:
  assumes built: "TokenAndPositionEmbedding_built self"
    and long: "input_dim (pos_emb self) < length x"
  shows "TokenAndPositionEmbedding_call self x = Inl InvalidIndex"
proof -
  from built have lpos: "length (embeddings (pos_emb self)) = input_dim (pos_emb self)"
    by (auto simp: TokenAndPositionEmbedding_built_def Embedding_built_def has_shape_def)
  have "Embedding_call (pos_emb self) (map int [0..<length x]) = Inl InvalidIndex"
    by (rule Embedding_call_out_of_range) (use long in \<open>simp add: positions_in_range lpos\<close>)
  then show ?thesis
    by (simp add: TokenAndPositionEmbedding_call_def Let_def)
qed

lemma TokenAndPositionEmbedding_call_Inl_D:
  assumes built: "TokenAndPositionEmbedding_built self"
    and err: "TokenAndPositionEmbedding_call self x = Inl e"
  shows "e = InvalidIndex \<and>
         \<not> (ids_in_range (input_dim (token_emb self)) x \<and> length x \<le> input_dim (pos_emb self))"
proof (intro conjI)
  show "\<not> (ids_in_range (input_dim (token_emb self)) x \<and> length x \<le> input_dim (pos_emb self))"
    using TokenAndPositionEmbedding_call_valid [OF built, of x] err by auto
  show "e = InvalidIndex"
  proof (cases "length x \<le> input_dim (pos_emb self)")
    case False
    then have "TokenAndPositionEmbedding_call self x = Inl InvalidIndex"
      using TokenAndPositionEmbedding_call_too_long [OF built, of x] by simp
    with err show ?thesis by simp
  next
    case True
    with TokenAndPositionEmbedding_call_valid [OF built, of x] err
    have bad: "\<not> ids_in_range (input_dim (token_emb self)) x" by auto
    from built have ltok: "length (embeddings (token_emb self)) = input_dim (token_emb self)"
      and lpos: "length (embeddings (pos_emb self)) = input_dim (pos_emb self)"
      by (auto simp: TokenAndPositionEmbedding_built_def Embedding_built_def has_shape_def)
    have "Embedding_call (token_emb self) x = Inl InvalidIndex"
      by (rule Embedding_call_out_of_range) (use bad in \<open>simp add: ids_in_range_def ltok\<close>)
    moreover obtain P where "Embedding_call (pos_emb self) (map int [0..<length x]) = Inr P"
      using Embedding_call_in_range [of "pos_emb self" "map int [0..<length x]"] True
      by (simp add: positions_in_range lpos)
    ultimately have "TokenAndPositionEmbedding_call self x = Inl InvalidIndex"
      by (simp add: TokenAndPositionEmbedding_call_def Let_def)
    with err show ?thesis by simp
  qed
qed

text \<open>
  Claim C2. For a built layer, \<open>call\<close> on a sequence of token ids in
  \<open>[0, vocab_size)\<close> no longer than the position table returns, at each position
  \<open>p\<close> of the input, the entry-by-entry sum of the token table's row of the id at
  \<open>p\<close> and the position table's row \<open>p\<close>, positions counted from 0 to the
  input's length minus 1; and whatever input \<open>call\<close> returns a value on, that value
  is this sum.
\<close>

theorem TokenAndPositionEmbedding_call_is_sum:
  assumes "TokenAndPositionEmbedding_built self"
  shows "(ids_in_range (input_dim (token_emb self)) x \<and> length x \<le> input_dim (pos_emb self)
            \<longrightarrow> TokenAndPositionEmbedding_call self x = Inr (token_plus_position self x)) \<and>
         (\<forall>out. TokenAndPositionEmbedding_call self x = Inr out
            \<longrightarrow> out = token_plus_position self x)"
proof (intro conjI impI allI)
  assume "ids_in_range (input_dim (token_emb self)) x \<and> length x \<le> input_dim (pos_emb self)"
  with assms show "TokenAndPositionEmbedding_call self x = Inr (token_plus_position self x)"
    by (simp add: TokenAndPositionEmbedding_call_valid)
next
  fix out assume ret: "TokenAndPositionEmbedding_call self x = Inr out"
  from TokenAndPositionEmbedding_call_Inr_D [OF assms ret]
  have "TokenAndPositionEmbedding_call self x = Inr (token_plus_position self x)"
    using assms by (simp add: TokenAndPositionEmbedding_call_valid)
  with ret show "out = token_plus_position self x" by simp
qed

theorem TokenAndPositionEmbedding_call_is_sum_witness:
  "TokenAndPositionEmbedding_call example_embedding [3, 0] = Inr [[12, 22], [31, 40]]"
proof -
  have b: "TokenAndPositionEmbedding_built example_embedding"
    by (rule example_embedding_built)
  have v: "ids_in_range (input_dim (token_emb example_embedding)) [3, 0] \<and>
           length [3, 0 :: int] \<le> input_dim (pos_emb example_embedding)"
    by (simp add: example_embedding_def TokenAndPositionEmbedding_init_def ids_in_range_def)
  have e: "token_plus_position example_embedding [3, 0] = [[12, 22], [31, 40]]"
    by code_simp
  from TokenAndPositionEmbedding_call_is_sum [OF b, of "[3, 0]"] v
  have "TokenAndPositionEmbedding_call example_embedding [3, 0]
          = Inr (token_plus_position example_embedding [3, 0])"
    by blast
  with e show ?thesis by simp
qed

text \<open>
  Claim C8. For a built layer, \<open>call\<close> on token ids that all lie in
  \<open>[0, vocab_size)\<close>, on an input no longer than \<open>maxlen\<close>, returns a value: no
  error is reachable. The only error the layer has at all is the lookup of an index
  outside a table, which is left to the framework, and it arises only outside that
  precondition.
\<close>

theorem TokenAndPositionEmbedding_no_error_when_valid:
  assumes "TokenAndPositionEmbedding_built self"
  shows "(ids_in_range (input_dim (token_emb self)) x \<and> length x \<le> input_dim (pos_emb self)
            \<longrightarrow> (\<exists>out. TokenAndPositionEmbedding_call self x = Inr out)) \<and>
         (\<forall>e. TokenAndPositionEmbedding_call self x = Inl e
            \<longrightarrow> e = InvalidIndex \<and>
                \<not> (ids_in_range (input_dim (token_emb self)) x \<and>
                   length x \<le> input_dim (pos_emb self)))"
proof (intro conjI impI allI)
  assume "ids_in_range (input_dim (token_emb self)) x \<and> length x \<le> input_dim (pos_emb self)"
  with assms show "\<exists>out. TokenAndPositionEmbedding_call self x = Inr out"
    by (simp add: TokenAndPositionEmbedding_call_valid)
next
  fix e assume "TokenAndPositionEmbedding_call self x = Inl e"
  from TokenAndPositionEmbedding_call_Inl_D [OF assms this]
  show "e = InvalidIndex" and
    "\<not> (ids_in_range (input_dim (token_emb self)) x \<and> length x \<le> input_dim (pos_emb self))"
    by simp_all
qed

theorem TokenAndPositionEmbedding_no_error_when_valid_witness:
  "(\<exists>out. TokenAndPositionEmbedding_call example_embedding [1, 2, 3] = Inr out) \<and>
   TokenAndPositionEmbedding_call example_embedding [1, 4] \<noteq> Inl ShapeMismatch"
proof -
  have b: "TokenAndPositionEmbedding_built example_embedding"
    by (rule example_embedding_built)
  have v: "ids_in_range (input_dim (token_emb example_embedding)) [1, 2, 3] \<and>
           length [1, 2, 3 :: int] \<le> input_dim (pos_emb example_embedding)"
    by (simp add: example_embedding_def TokenAndPositionEmbedding_init_def ids_in_range_def)
  from TokenAndPositionEmbedding_no_error_when_valid [OF b, of "[1, 2, 3]"] v
  have "\<exists>out. TokenAndPositionEmbedding_call example_embedding [1, 2, 3] = Inr out"
    by blast
  moreover from TokenAndPositionEmbedding_no_error_when_valid [OF b, of "[1, 4]"]
  have "TokenAndPositionEmbedding_call example_embedding [1, 4] \<noteq> Inl ShapeMismatch"
    by blast
  ultimately show ?thesis by simp
qed

text \<open>
  Claim C9. \<open>call\<close> takes the number of positions from the length \<open>L\<close> of its
  input, not from the constructor's \<open>maxlen\<close>: the position table has exactly
  \<open>maxlen\<close> rows; an input of length \<open>L \<le> maxlen\<close> (with ids in range) gets
  \<open>L\<close> rows, the row at \<open>p\<close> using the position table's row \<open>p\<close> for
  \<open>p = 0, ..., L - 1\<close>; and for \<open>L > maxlen\<close> the position lookup leaves the table
  and no value is returned.
\<close>

theorem TokenAndPositionEmbedding_positions_from_input_length:
  assumes "TokenAndPositionEmbedding_built self"
  shows "length (embeddings (pos_emb self)) = input_dim (pos_emb self) \<and>
         (ids_in_range (input_dim (token_emb self)) x \<and> length x \<le> input_dim (pos_emb self)
            \<longrightarrow> (\<exists>out. TokenAndPositionEmbedding_call self x = Inr out \<and>
                   length out = length x \<and>
                   (\<forall>p<length x. out ! p =
                      map2 (+) (embeddings (token_emb self) ! nat (x ! p))
                               (embeddings (pos_emb self) ! p)))) \<and>
         (input_dim (pos_emb self) < length x
            \<longrightarrow> TokenAndPositionEmbedding_call self x = Inl InvalidIndex)"
proof (intro conjI impI)
  from assms show "length (embeddings (pos_emb self)) = input_dim (pos_emb self)"
    by (simp add: TokenAndPositionEmbedding_built_def Embedding_built_def has_shape_def)
next
  assume "ids_in_range (input_dim (token_emb self)) x \<and> length x \<le> input_dim (pos_emb self)"
  with assms have "TokenAndPositionEmbedding_call self x = Inr (token_plus_position self x)"
    by (simp add: TokenAndPositionEmbedding_call_valid)
  moreover have "length (token_plus_position self x) = length x"
    by (simp add: token_plus_position_def)
  moreover have "\<forall>p<length x. token_plus_position self x ! p =
      map2 (+) (embeddings (token_emb self) ! nat (x ! p)) (embeddings (pos_emb self) ! p)"
    by (simp add: token_plus_position_def)
  ultimately show "\<exists>out. TokenAndPositionEmbedding_call self x = Inr out \<and>
      length out = length x \<and>
      (\<forall>p<length x. out ! p =
         map2 (+) (embeddings (token_emb self) ! nat (x ! p)) (embeddings (pos_emb self) ! p))"
    by blast
next
  assume "input_dim (pos_emb self) < length x"
  with assms show "TokenAndPositionEmbedding_call self x = Inl InvalidIndex"
    by (rule TokenAndPositionEmbedding_call_too_long)
qed

theorem TokenAndPositionEmbedding_positions_from_input_length_witness:
  "TokenAndPositionEmbedding_call example_embedding [0, 0, 0, 0] = Inl InvalidIndex \<and>
   (\<exists>out. TokenAndPositionEmbedding_call example_embedding [0, 0] = Inr out \<and>
      length out = 2 \<and> out ! 1 = [31, 40])"
proof -
  have b: "TokenAndPositionEmbedding_built example_embedding"
    by (rule example_embedding_built)
  note t = TokenAndPositionEmbedding_positions_from_input_length [OF b]
  have long: "input_dim (pos_emb example_embedding) < length [0, 0, 0, 0 :: int]"
    by (simp add: example_embedding_def TokenAndPositionEmbedding_init_def)
  have v: "ids_in_range (input_dim (token_emb example_embedding)) [0, 0] \<and>
           length [0, 0 :: int] \<le> input_dim (pos_emb example_embedding)"
    by (simp add: example_embedding_def TokenAndPositionEmbedding_init_def ids_in_range_def)
  from t [of "[0, 0, 0, 0]"] long
  have 1: "TokenAndPositionEmbedding_call example_embedding [0, 0, 0, 0] = Inl InvalidIndex"
    by blast
  from t [of "[0, 0]"] v obtain out where
    out: "TokenAndPositionEmbedding_call example_embedding [0, 0] = Inr out"
      "length out = length [0, 0 :: int]"
      "\<forall>p<length [0, 0 :: int]. out ! p =
         map2 (+) (embeddings (token_emb example_embedding) ! nat ([0, 0] ! p))
                  (embeddings (pos_emb example_embedding) ! p)"
    by blast
  from out(3) have "out ! 1 = map2 (+) (embeddings (token_emb example_embedding) ! nat ([0, 0] ! 1))
                  (embeddings (pos_emb example_embedding) ! 1)"
    by simp
  then have "out ! 1 = [31, 40]"
    by (simp add: example_embedding_def TokenAndPositionEmbedding_init_def)
  with out(1,2) 1 show ?thesis by simp
qed

section \<open>Dataset preparation: facts\<close>

lemma pad_sequence_pre:
  assumes "0 < n"
  shows "pad_sequence n Pre Pre 0 s = Inr (pre_padded n s)"
proof (cases "s = []")
  case True
  then show ?thesis by (simp add: pad_sequence_def pre_padded_def)
next
  case False
  have "length (drop (length s - n) s) = min (length s) n" by simp
  then have "\<not> n < length (drop (length s - n) s)" by simp
  moreover have "n - length (drop (length s - n) s) = n - length s" by simp
  ultimately show ?thesis
    using False assms by (simp add: pad_sequence_def pre_padded_def Let_def del: length_drop)
qed

lemma pad_sequences_pre:
  assumes "0 < n"
  shows "pad_sequences sequences n = Inr (map (pre_padded n) sequences)"
  unfolding pad_sequences_def
  by (rule traverse_map) (simp add: pad_sequence_pre assms)

lemma length_pre_padded: "length (pre_padded n s) = n"
  by (simp add: pre_padded_def)

lemma pre_padded_long: "n < length s \<Longrightarrow> pre_padded n s = drop (length s - n) s"
  by (simp add: pre_padded_def)

lemma pre_padded_short: "length s \<le> n \<Longrightarrow> pre_padded n s = replicate (n - length s) 0 @ s"
  by (simp add: pre_padded_def)

lemma set_pre_padded: "set (pre_padded n s) \<subseteq> insert 0 (set s)"
proof -
  have "set (drop (length s - n) s) \<subseteq> set s" by (rule set_drop_subset)
  then show ?thesis by (auto simp: pre_padded_def)
qed

text \<open>
  Claim C10. \<open>pad_sequences\<close> as the notebook calls it (the framework's defaults,
  \<open>maxlen = 200\<close>) pads and truncates in front: every row has length 200; a sequence
  longer than 200 keeps its last 200 tokens; a shorter one is preceded by zeros, so the
  tokens of the review are always the last entries of the row.
\<close>

theorem pad_sequences_pads_and_truncates_in_front:
  "\<exists>rows. pad_sequences sequences maxlen = Inr rows \<and>
      length rows = length sequences \<and>
      (\<forall>i<length sequences.
          length (rows ! i) = 200 \<and>
          (200 < length (sequences ! i) \<longrightarrow>
             rows ! i = drop (length (sequences ! i) - 200) (sequences ! i)) \<and>
          (length (sequences ! i) \<le> 200 \<longrightarrow>
             rows ! i = replicate (200 - length (sequences ! i)) 0 @ sequences ! i))"
proof -
  have "pad_sequences sequences maxlen = Inr (map (pre_padded 200) sequences)"
    by (simp add: pad_sequences_pre maxlen_def)
  moreover have "\<forall>i<length sequences.
      length (map (pre_padded 200) sequences ! i) = 200 \<and>
      (200 < length (sequences ! i) \<longrightarrow>
         map (pre_padded 200) sequences ! i = drop (length (sequences ! i) - 200) (sequences ! i)) \<and>
      (length (sequences ! i) \<le> 200 \<longrightarrow>
         map (pre_padded 200) sequences ! i
           = replicate (200 - length (sequences ! i)) 0 @ sequences ! i)"
    by (simp add: length_pre_padded pre_padded_long pre_padded_short)
  ultimately show ?thesis by auto
qed

theorem pad_sequences_pads_and_truncates_in_front_witness:
  "\<exists>rows. pad_sequences [[7, 8, 9], replicate 201 1 @ [5]] maxlen = Inr rows \<and>
      length rows = 2 \<and>
      rows ! 0 = replicate 197 0 @ [7, 8, 9] \<and>
      rows ! 1 = replicate 199 1 @ [5]"
proof -
  let ?seqs = "[[7, 8, 9], replicate 201 1 @ [5]] :: int list list"
  from pad_sequences_pads_and_truncates_in_front [of ?seqs] obtain rows where
    r: "pad_sequences ?seqs maxlen = Inr rows" and l: "length rows = length ?seqs" and
    a: "\<And>i. i < length ?seqs \<Longrightarrow>
          length (rows ! i) = 200 \<and>
          (200 < length (?seqs ! i) \<longrightarrow> rows ! i = drop (length (?seqs ! i) - 200) (?seqs ! i)) \<and>
          (length (?seqs ! i) \<le> 200 \<longrightarrow>
             rows ! i = replicate (200 - length (?seqs ! i)) 0 @ ?seqs ! i)"
    by blast
  have "rows ! 0 = replicate 197 0 @ [7, 8, 9]"
    using a [of 0] by simp
  moreover have "rows ! 1 = replicate 199 1 @ [5]"
    using a [of 1] by simp
  moreover have "length rows = 2"
    using l by simp
  ultimately show ?thesis
    using r by blast
qed

lemma load_data_eq:
  "load_data f n =
     ((map (clip_to_vocabulary n) (archive_x_train f), archive_y_train f),
      (map (clip_to_vocabulary n) (archive_x_test f), archive_y_test f))"
  by (simp add: load_data_def Let_def clip_to_vocabulary_def)

lemma clip_to_vocabulary_range:
  assumes "2 < n" and "t \<in> set (clip_to_vocabulary n x)"
  shows "0 \<le> t \<and> t < int n"
  using assms by (auto simp: clip_to_vocabulary_def)

lemma prepare_dataset_eq:
  "prepare_dataset f =
     Inr ((map (pre_padded maxlen \<circ> clip_to_vocabulary vocab_size) (archive_x_train f),
           archive_y_train f),
          (map (pre_padded maxlen \<circ> clip_to_vocabulary vocab_size) (archive_x_test f),
           archive_y_test f))"
proof -
  have "0 < maxlen" by (simp add: maxlen_def)
  then show ?thesis
    by (simp add: prepare_dataset_def load_data_eq pad_sequences_pre)
qed

lemma prepared_sequence_ok:
  "length (pre_padded maxlen (clip_to_vocabulary vocab_size x)) = 200 \<and>
   (\<forall>t\<in>set (pre_padded maxlen (clip_to_vocabulary vocab_size x)). 0 \<le> t \<and> t < 20000)"
proof (rule conjI)
  show "length (pre_padded maxlen (clip_to_vocabulary vocab_size x)) = 200"
    by (simp add: length_pre_padded maxlen_def)
next
  show "\<forall>t\<in>set (pre_padded maxlen (clip_to_vocabulary vocab_size x)). 0 \<le> t \<and> t < 20000"
  proof (rule ballI)
    fix t assume "t \<in> set (pre_padded maxlen (clip_to_vocabulary vocab_size x))"
    with set_pre_padded have "t = 0 \<or> t \<in> set (clip_to_vocabulary vocab_size x)" by blast
    then show "0 \<le> t \<and> t < 20000"
    proof
      assume "t = 0"
      then show ?thesis by simp
    next
      assume "t \<in> set (clip_to_vocabulary vocab_size x)"
      with clip_to_vocabulary_range [of vocab_size t x] show ?thesis
        by (simp add: vocab_size_def)
    qed
  qed
qed

text \<open>
  Claim C5. Whatever the archive holds, dataset preparation returns, and every sequence
  of the training and of the validation set then has length 200 and ids in
  \<open>[0, 20000)\<close>, \<open>20000\<close> being \<open>vocab_size\<close>.
\<close>

theorem prepared_sequences_have_length_200_and_ids_in_vocabulary:
  "maxlen = 200 \<and> vocab_size = 20000 \<and>
   (\<exists>x_train y_train x_val y_val.
      prepare_dataset f = Inr ((x_train, y_train), (x_val, y_val)) \<and>
      length x_train = length (archive_x_train f) \<and>
      length x_val = length (archive_x_test f) \<and>
      (\<forall>s\<in>set x_train \<union> set x_val.
          length s = 200 \<and> (\<forall>t\<in>set s. 0 \<le> t \<and> t < 20000)))"
proof (intro conjI)
  show "maxlen = 200" by (simp add: maxlen_def)
  show "vocab_size = 20000" by (simp add: vocab_size_def)
  let ?p = "pre_padded maxlen \<circ> clip_to_vocabulary vocab_size"
  have "\<forall>s\<in>set (map ?p (archive_x_train f)) \<union> set (map ?p (archive_x_test f)).
          length s = 200 \<and> (\<forall>t\<in>set s. 0 \<le> t \<and> t < 20000)"
    using prepared_sequence_ok by auto
  then show "\<exists>x_train y_train x_val y_val.
      prepare_dataset f = Inr ((x_train, y_train), (x_val, y_val)) \<and>
      length x_train = length (archive_x_train f) \<and>
      length x_val = length (archive_x_test f) \<and>
      (\<forall>s\<in>set x_train \<union> set x_val.
          length s = 200 \<and> (\<forall>t\<in>set s. 0 \<le> t \<and> t < 20000))"
    using prepare_dataset_eq [of f] by simp
qed

theorem prepared_sequences_have_length_200_and_ids_in_vocabulary_witness:
  "\<exists>x_train x_val.
      prepare_dataset example_archive = Inr ((x_train, [1]), (x_val, [0])) \<and>
      x_train = [replicate 196 0 @ [1, 7, 2, 10]] \<and>
      x_val = [replicate 199 19999 @ [2]] \<and>
      list_all (\<lambda>s. length s = 200 \<and> list_all (\<lambda>t. 0 \<le> t \<and> t < 20000) s) (x_train @ x_val)"
proof -
  from prepared_sequences_have_length_200_and_ids_in_vocabulary [of example_archive]
  obtain x_train y_train x_val y_val where
    r: "prepare_dataset example_archive = Inr ((x_train, y_train), (x_val, y_val))" and
    ok: "\<forall>s\<in>set x_train \<union> set x_val. length s = 200 \<and> (\<forall>t\<in>set s. 0 \<le> t \<and> t < 20000)"
    by blast
  have e: "prepare_dataset example_archive =
     Inr (([replicate 196 0 @ [1, 7, 2, 10]], [1]), ([replicate 199 19999 @ [2]], [0]))"
    by (simp add: prepare_dataset_eq example_archive_def pre_padded_def
        clip_to_vocabulary_def maxlen_def vocab_size_def)
  from ok have "list_all (\<lambda>s. length s = 200 \<and> list_all (\<lambda>t. 0 \<le> t \<and> t < 20000) s)
                  (x_train @ x_val)"
    by (simp add: list_all_iff)
  with r e show ?thesis by simp
qed

section \<open>Shapes through the framework's layers\<close>

lemma has_shape_map:
  "(\<And>x. x \<in> set xs \<Longrightarrow> length (f x) = d) \<Longrightarrow> has_shape (map f xs) (length xs) d"
  by (simp add: has_shape_def list_all_iff)

lemma has_shape_rows:
  "has_shape t n d \<Longrightarrow> x \<in> set t \<Longrightarrow> length x = d"
  by (simp add: has_shape_def list_all_iff)

lemma has_shape_length:
  "has_shape t n d \<Longrightarrow> length t = n"
  by (simp add: has_shape_def)

lemma length_activate [simp]: "length (activate a z) = length z"
  by (cases a) (simp_all add: relu_def softmax_def)

lemma length_vec_mat [simp]: "length (vec_mat x W n) = n"
  by (simp add: vec_mat_def)

lemma length_affine [simp]: "length (affine x W b) = length b"
  by (simp add: affine_def)

lemma Dense_call_built:
  assumes "Dense_built l d" and "length x = d"
  shows "Dense_call l x = Inr (activate (activation l) (affine x (kernel l) (bias l)))"
  using assms by (simp add: Dense_call_def Dense_built_def has_shape_def)

lemma Dense_call_seq_built:
  assumes built: "Dense_built l d" and shape: "has_shape xs n d"
  shows "\<exists>ys. Dense_call_seq l xs = Inr ys \<and> has_shape ys n (units l)"
proof -
  let ?g = "\<lambda>x. activate (activation l) (affine x (kernel l) (bias l))"
  have "Dense_call_seq l xs = Inr (map ?g xs)"
    unfolding Dense_call_seq_def
    by (rule traverse_map) (simp add: Dense_call_built [OF built] has_shape_rows [OF shape])
  moreover have "has_shape (map ?g xs) (length xs) (units l)"
    by (rule has_shape_map) (use built in \<open>simp add: Dense_built_def\<close>)
  ultimately show ?thesis
    using has_shape_length [OF shape] by auto
qed

lemma Sequential_call_built:
  "Sequential_built ls d \<Longrightarrow> has_shape xs n d \<Longrightarrow>
     \<exists>ys. Sequential_call ls xs = Inr ys \<and> has_shape ys n (Sequential_output_dim ls d)"
proof (induction ls arbitrary: d xs)
  case Nil
  then show ?case by simp
next
  case (Cons l ls)
  from Cons.prems have b: "Dense_built l d" and bs: "Sequential_built ls (units l)" by simp_all
  from Dense_call_seq_built [OF b Cons.prems(2)] obtain ys where
    ys: "Dense_call_seq l xs = Inr ys" "has_shape ys n (units l)" by blast
  from Cons.IH [OF bs ys(2)] obtain zs where
    zs: "Sequential_call ls ys = Inr zs"
        "has_shape zs n (Sequential_output_dim ls (units l))" by blast
  from ys(1) zs show ?case by auto
qed

lemma LayerNormalization_call_seq_built:
  assumes built: "LayerNormalization_built l d" and shape: "has_shape xs n d"
  shows "\<exists>ys. LayerNormalization_call_seq l xs = Inr ys \<and> has_shape ys n d"
proof -
  let ?g = "\<lambda>x. map (\<lambda>(v, g, b). (v - mean x) / sqrt (variance x + epsilon l) * g + b)
                  (zip x (zip (gamma l) (beta l)))"
  from built have g: "length (gamma l) = d" and b: "length (beta l) = d"
    by (simp_all add: LayerNormalization_built_def)
  have "LayerNormalization_call_seq l xs = Inr (map ?g xs)"
    unfolding LayerNormalization_call_seq_def
    by (rule traverse_map) (simp add: LayerNormalization_call_def g has_shape_rows [OF shape])
  moreover have "has_shape (map ?g xs) (length xs) d"
    by (rule has_shape_map) (simp add: g b has_shape_rows [OF shape])
  ultimately show ?thesis
    using has_shape_length [OF shape] by auto
qed

lemma length_Dropout_call [simp]: "length (Dropout_call l training x) = length x"
  by (simp add: Dropout_call_def enumerate_eq_zip split: option.split)

lemma Dropout_call_seq_shape:
  assumes "has_shape xs n d"
  shows "has_shape (Dropout_call_seq l training xs) n d"
proof (cases training)
  case None
  with assms show ?thesis by (simp add: Dropout_call_seq_def)
next
  case (Some keep)
  have "list_all (\<lambda>row. length row = d)
          (map (\<lambda>(p, x). Dropout_call l (Some (keep p)) x) (enumerate 0 xs))"
    using assms
    by (auto simp: list_all_iff has_shape_def enumerate_eq_zip dest: set_zip_rightD)
  with Some assms show ?thesis
    by (simp add: Dropout_call_seq_def has_shape_def)
qed

lemma MultiHeadAttention_call_built:
  assumes built: "MultiHeadAttention_built l d"
    and q: "has_shape query n d" and v: "has_shape val m d"
  shows "\<exists>out. MultiHeadAttention_call l query val = Inr out \<and> has_shape out n d"
proof -
  from built have d: "length (att_output_bias l) = d"
    by (simp add: MultiHeadAttention_built_def)
  from q v have "list_all (\<lambda>x. length x = d) query" "list_all (\<lambda>x. length x = d) val"
    and n: "length query = n"
    by (simp_all add: has_shape_def)
  then show ?thesis
    by (simp add: MultiHeadAttention_call_def Let_def d has_shape_def list_all_iff)
qed

lemma add_vec_broadcast:
  assumes "length a = d" and "length b = e" and "d = e \<or> d = 1 \<or> e = 1"
  shows "\<exists>c. add_vec a b = Inr c \<and> length c = broadcast_dim d e"
  using assms by (auto simp: add_vec_def broadcast_dim_def)

lemma tensor_add_broadcast:
  assumes a: "has_shape a n d" and b: "has_shape b n e" and ok: "d = e \<or> d = 1 \<or> e = 1"
  shows "\<exists>c. tensor_add a b = Inr c \<and> has_shape c n (broadcast_dim d e)"
proof -
  from a b have len: "length a = length b" and n: "length a = n"
    by (simp_all add: has_shape_def)
  define g where "g = (\<lambda>p :: vec \<times> vec. projr (add_vec (fst p) (snd p)))"
  have each: "(case p of (x, y) \<Rightarrow> add_vec x y) = Inr (g p) \<and> length (g p) = broadcast_dim d e"
    if "p \<in> set (zip a b)" for p
  proof -
    obtain x y where p: "p = (x, y)" by (cases p) auto
    with that have "x \<in> set a" "y \<in> set b"
      by (auto dest: set_zip_leftD set_zip_rightD)
    with p have "length (fst p) = d" "length (snd p) = e"
      using a b by (simp_all add: has_shape_rows)
    from add_vec_broadcast [OF this ok] show ?thesis
      by (auto simp: g_def split: prod.split)
  qed
  have "traverse (\<lambda>(x, y). add_vec x y) (zip a b) = Inr (map g (zip a b))"
    by (rule traverse_map) (simp add: each)
  with len have "tensor_add a b = Inr (map g (zip a b))"
    by (simp add: tensor_add_def)
  moreover have "has_shape (map g (zip a b)) (length (zip a b)) (broadcast_dim d e)"
    by (rule has_shape_map) (simp add: each)
  ultimately show ?thesis using len n by auto
qed

lemma tensor_add_shape:
  assumes a: "has_shape a n d" and b: "has_shape b n d"
  shows "\<exists>c. tensor_add a b = Inr c \<and> has_shape c n d"
  using tensor_add_broadcast [OF a b] by (simp add: broadcast_dim_def)

section \<open>The transformer block: facts\<close>

lemma example_block_built: "TransformerBlock_built example_block 2"
  by (simp add: example_block_def TransformerBlock_init_def TransformerBlock_built_def
      example_block_weights_def example_head_def MultiHeadAttention_built_def
      AttentionHead_built_def Dense_built_def LayerNormalization_built_def has_shape_def
      broadcast_dim_def)

lemma relu_nonneg: "v \<in> set (relu z) \<Longrightarrow> 0 \<le> v"
  by (auto simp: relu_def)

lemma and_then_assoc:
  "and_then (and_then r f) g = and_then r (\<lambda>x. and_then (f x) g)"
  by (cases r) simp_all

lemma and_then_Inr_right: "and_then r Inr = r"
  by (cases r) simp_all

lemma Sequential_call_single: "Sequential_call [l] = Dense_call_seq l"
proof (rule ext)
  fix x
  have "Sequential_call [] = Inr" by (rule ext) simp
  then show "Sequential_call [l] x = Dense_call_seq l x"
    by (simp add: and_then_Inr_right)
qed

lemma Sequential_call_two:
  "Sequential_call [l1, l2] x = and_then (Dense_call_seq l1 x) (Dense_call_seq l2)"
  by (simp only: Sequential_call.simps(2) Sequential_call_single)

lemma TransformerBlock_call_unfold:
  "TransformerBlock_call (TransformerBlock_init d h f r w) training inputs =
     six_steps d h f r w training inputs"
  by (simp add: TransformerBlock_call_def TransformerBlock_init_def six_steps_def
      step1_self_attention_def step2_dropout_def step3_residual_norm_def
      step4_feed_forward_def step5_dropout_def step6_residual_norm_def Let_def
      and_then_assoc Sequential_call_two del: Sequential_call.simps)

lemma step4_feed_forward_shapes:
  assumes built: "Sequential_built (ffn (TransformerBlock_init d h f r w)) d"
    and shape: "has_shape out1 n d"
  shows "\<exists>hidden y.
           Dense_call_seq \<lparr>units = f, activation = Relu,
                           kernel = w_ffn1_kernel w, bias = w_ffn1_bias w\<rparr> out1 = Inr hidden \<and>
           has_shape hidden n f \<and>
           (\<forall>row\<in>set hidden. \<forall>v\<in>set row. 0 \<le> v) \<and>
           step4_feed_forward d f w out1 = Inr y \<and>
           has_shape y n d"
proof -
  let ?l1 = "\<lparr>units = f, activation = Relu, kernel = w_ffn1_kernel w, bias = w_ffn1_bias w\<rparr>"
  let ?l2 = "\<lparr>units = d, activation = Linear, kernel = w_ffn2_kernel w, bias = w_ffn2_bias w\<rparr>"
  from built have b1: "Dense_built ?l1 d" and b2: "Dense_built ?l2 f"
    by (simp_all add: TransformerBlock_init_def)
  let ?g = "\<lambda>x. relu (affine x (w_ffn1_kernel w) (w_ffn1_bias w))"
  have h: "Dense_call_seq ?l1 out1 = Inr (map ?g out1)"
    unfolding Dense_call_seq_def
    by (rule traverse_map) (simp add: Dense_call_built [OF b1] has_shape_rows [OF shape])
  have hs: "has_shape (map ?g out1) n f"
    using Dense_call_seq_built [OF b1 shape] h by simp
  have nonneg: "\<forall>row\<in>set (map ?g out1). \<forall>v\<in>set row. 0 \<le> v"
    by (auto dest: relu_nonneg)
  from Dense_call_seq_built [OF b2 hs] obtain y where
    y: "Dense_call_seq ?l2 (map ?g out1) = Inr y" "has_shape y n d" by auto
  from h y(1) have "step4_feed_forward d f w out1 = Inr y"
    by (simp add: step4_feed_forward_def)
  with h hs nonneg y(2) show ?thesis by blast
qed

lemma TransformerBlock_call_shape:
  assumes built: "TransformerBlock_built self d"
    and ok: "d = Sequential_output_dim (ffn self) d \<or> d = 1 \<or>
             Sequential_output_dim (ffn self) d = 1"
    and shape: "has_shape inputs n d"
  shows "\<exists>out. TransformerBlock_call self training inputs = Inr out \<and>
           has_shape out n (broadcast_dim d (Sequential_output_dim (ffn self) d))"
proof -
  let ?e = "Sequential_output_dim (ffn self) d"
  from built have att: "MultiHeadAttention_built (att self) d"
    and seq: "Sequential_built (ffn self) d"
    and ln1: "LayerNormalization_built (layernorm1 self) d"
    and ln2: "LayerNormalization_built (layernorm2 self) (broadcast_dim d ?e)"
    by (simp_all add: TransformerBlock_built_def)
  from MultiHeadAttention_call_built [OF att shape shape] obtain a where
    a: "MultiHeadAttention_call (att self) inputs inputs = Inr a" "has_shape a n d" by blast
  let ?a = "Dropout_call_seq (dropout1 self) (map_option fst training) a"
  have da: "has_shape ?a n d" using a(2) by (rule Dropout_call_seq_shape)
  from tensor_add_shape [OF shape da] obtain s1 where
    s1: "tensor_add inputs ?a = Inr s1" "has_shape s1 n d" by blast
  from LayerNormalization_call_seq_built [OF ln1 s1(2)] obtain out1 where
    out1: "LayerNormalization_call_seq (layernorm1 self) s1 = Inr out1" "has_shape out1 n d"
    by blast
  from Sequential_call_built [OF seq out1(2)] obtain f where
    f: "Sequential_call (ffn self) out1 = Inr f" "has_shape f n ?e" by auto
  let ?f = "Dropout_call_seq (dropout2 self) (map_option snd training) f"
  have df: "has_shape ?f n ?e" using f(2) by (rule Dropout_call_seq_shape)
  from tensor_add_broadcast [OF out1(2) df ok] obtain s2 where
    s2: "tensor_add out1 ?f = Inr s2" "has_shape s2 n (broadcast_dim d ?e)" by blast
  from LayerNormalization_call_seq_built [OF ln2 s2(2)] obtain out where
    out: "LayerNormalization_call_seq (layernorm2 self) s2 = Inr out"
      "has_shape out n (broadcast_dim d ?e)"
    by blast
  from a(1) s1(1) out1(1) f(1) s2(1) out have
    "TransformerBlock_call self training inputs = Inr out"
    by (simp add: TransformerBlock_call_def Let_def)
  with out(2) show ?thesis by blast
qed

lemma TransformerBlock_init_output_dim:
  "Sequential_output_dim (ffn (TransformerBlock_init d h f r w)) d' = d"
  by (simp add: TransformerBlock_init_def)

text \<open>
  Claim C1. On every input, \<open>call\<close> of a block made by the constructor is the
  composition, in this order, of (1) multi-head attention of the input with itself,
  (2) dropout, (3) the sum with the input, normalized, (4) the feed-forward network,
  (5) dropout, (6) the sum with the result of step 3, normalized; the result of step 6 is
  what \<open>call\<close> returns. Step 4 is two dense layers: on a sequence of \<open>n\<close>
  vectors of \<open>embed_dim\<close> numbers the first gives \<open>n\<close> vectors of \<open>ff_dim\<close>
  numbers, none negative (relu), and the second gives \<open>n\<close> vectors of \<open>embed_dim\<close>
  numbers. (In the statement \<open>d\<close> is \<open>embed_dim\<close>, \<open>h\<close> is \<open>num_heads\<close>,
  \<open>f\<close> is \<open>ff_dim\<close> and \<open>r\<close> is the dropout rate.)
\<close>

theorem TransformerBlock_call_applies_six_steps_in_order:
  "TransformerBlock_call (TransformerBlock_init d h f r w) training inputs
     = six_steps d h f r w training inputs \<and>
   (Sequential_built (ffn (TransformerBlock_init d h f r w)) d \<and> has_shape out1 n d \<longrightarrow>
      (\<exists>hidden y.
         Dense_call_seq \<lparr>units = f, activation = Relu,
                         kernel = w_ffn1_kernel w, bias = w_ffn1_bias w\<rparr> out1 = Inr hidden \<and>
         has_shape hidden n f \<and>
         (\<forall>row\<in>set hidden. \<forall>v\<in>set row. 0 \<le> v) \<and>
         step4_feed_forward d f w out1 = Inr y \<and>
         has_shape y n d))"
  using TransformerBlock_call_unfold step4_feed_forward_shapes by blast

theorem TransformerBlock_call_applies_six_steps_in_order_witness:
  "TransformerBlock_call example_block None [[1, 2], [3, 4]]
     = six_steps 2 1 3 (1 / 10) example_block_weights None [[1, 2], [3, 4]] \<and>
   (\<exists>y. step4_feed_forward 2 3 example_block_weights [[1, 2], [3, 4]] = Inr y \<and> has_shape y 2 2)"
proof -
  note t = TransformerBlock_call_applies_six_steps_in_order
    [of 2 1 3 "1 / 10" example_block_weights None "[[1, 2], [3, 4]]" "[[1, 2], [3, 4]]" 2]
  have b: "Sequential_built (ffn (TransformerBlock_init 2 1 3 (1 / 10) example_block_weights)) 2"
    using example_block_built by (simp add: TransformerBlock_built_def example_block_def)
  have s: "has_shape [[1, 2], [3, 4 :: real]] 2 2"
    by (simp add: has_shape_def)
  from t have "TransformerBlock_call example_block None [[1, 2], [3, 4]]
     = six_steps 2 1 3 (1 / 10) example_block_weights None [[1, 2], [3, 4]]"
    by (simp add: example_block_def)
  moreover from t b s
  have "\<exists>y. step4_feed_forward 2 3 example_block_weights [[1, 2], [3, 4]] = Inr y \<and> has_shape y 2 2"
    by blast
  ultimately show ?thesis by simp
qed

text \<open>
  Claim C3, as amended. For a block made by the constructor with embedding dimension
  \<open>d\<close>, on every input that is a sequence of vectors of \<open>d\<close> numbers (the weights
  being those created for that dimension), \<open>call\<close> returns a sequence of the same
  length whose vectors have \<open>d\<close> numbers: the shape of the input.
\<close>

theorem TransformerBlock_call_preserves_shape:
  assumes "TransformerBlock_built (TransformerBlock_init d h f r w) d"
    and "has_shape inputs n d"
  shows "\<exists>out. TransformerBlock_call (TransformerBlock_init d h f r w) training inputs = Inr out \<and>
           has_shape out n d \<and>
           length out = length inputs \<and>
           (\<forall>p<length inputs. length (out ! p) = length (inputs ! p))"
proof -
  from TransformerBlock_call_shape [OF assms(1) _ assms(2), of training] obtain out where
    out: "TransformerBlock_call (TransformerBlock_init d h f r w) training inputs = Inr out"
      "has_shape out n d"
    by (auto simp: TransformerBlock_init_output_dim broadcast_dim_def)
  from out(2) assms(2) have "length out = length inputs"
    by (simp add: has_shape_def)
  moreover from out(2) assms(2) have "\<forall>p<length inputs. length (out ! p) = length (inputs ! p)"
    by (simp add: has_shape_def list_all_length)
  ultimately show ?thesis using out by blast
qed

theorem TransformerBlock_call_preserves_shape_witness:
  "\<exists>out. TransformerBlock_call example_block None [[1, 2], [3, 4], [5, 6]] = Inr out \<and>
     has_shape out 3 2"
proof -
  have b: "TransformerBlock_built (TransformerBlock_init 2 1 3 (1 / 10) example_block_weights) 2"
    using example_block_built by (simp add: example_block_def)
  have s: "has_shape [[1, 2], [3, 4], [5, 6 :: real]] 3 2"
    by (simp add: has_shape_def)
  from TransformerBlock_call_preserves_shape [OF b s, of None] show ?thesis
    by (auto simp: example_block_def)
qed

lemma narrow_block_built: "TransformerBlock_built narrow_block 1"
  by (simp add: narrow_block_def TransformerBlock_init_def TransformerBlock_built_def
      narrow_block_weights_def narrow_head_def MultiHeadAttention_built_def
      AttentionHead_built_def Dense_built_def LayerNormalization_built_def has_shape_def
      broadcast_dim_def)

text \<open>
  Claim C3 as the spec states it, for every input, fails: a block with \<open>embed_dim = 2\<close>
  called on the sequence \<open>[[1], [2]]\<close> of two vectors of one number each (shape 2 x 1)
  returns two vectors of two numbers each (shape 2 x 2). The attention output and
  \<open>out1\<close> have the input's dimension 1, the feed-forward output has dimension
  \<open>embed_dim = 2\<close>, and \<open>out1 + ffn_output\<close> broadcasts the former to the latter.
  (The first normalization sends a vector of one number to its \<open>beta\<close>, here 0; the
  feed-forward network, without biases here, sends 0 to 0; the second normalization sends
  the zero vector to its \<open>beta\<close>, here \<open>[3, 4]\<close>.)
\<close>

theorem TransformerBlock_call_changes_shape_counterexample:
  "TransformerBlock_built narrow_block 1 \<and>
   has_shape [[1], [2 :: real]] 2 1 \<and>
   TransformerBlock_call narrow_block None [[1], [2]] = Inr [[3, 4], [3, 4]] \<and>
   \<not> has_shape [[3, 4], [3, 4 :: real]] 2 1"
proof -
  have mha: "\<exists>a b. MultiHeadAttention_call (att narrow_block) [[1], [2]] [[1], [2]]
                     = Inr [[a], [b]]"
    by (simp add: narrow_block_def TransformerBlock_init_def narrow_block_weights_def
        narrow_head_def MultiHeadAttention_call_def AttentionHead_call_def Let_def affine_def
        vec_mat_def dot_def softmax_def upt_conv_Cons)
  then obtain a b where
    a: "MultiHeadAttention_call (att narrow_block) [[1], [2]] [[1], [2]] = Inr [[a], [b]]"
    by blast
  have s1: "tensor_add [[1], [2]] [[a], [b]] = Inr [[1 + a], [2 + b]]"
    by (simp add: tensor_add_def add_vec_def)
  have ln1: "LayerNormalization_call_seq (layernorm1 narrow_block) [[1 + a], [2 + b]]
               = Inr [[0], [0]]"
    by (simp add: narrow_block_def TransformerBlock_init_def narrow_block_weights_def
        LayerNormalization_call_seq_def LayerNormalization_call_def mean_def variance_def)
  have ffn: "Sequential_call (ffn narrow_block) [[0], [0]] = Inr [[0, 0], [0, 0]]"
    by (simp add: narrow_block_def TransformerBlock_init_def narrow_block_weights_def
        Dense_call_seq_def Dense_call_def affine_def vec_mat_def dot_def relu_def upt_conv_Cons)
  have s2: "tensor_add [[0], [0]] [[0, 0], [0, 0]] = Inr [[0, 0], [0, 0]]"
    by (simp add: tensor_add_def add_vec_def)
  have ln2: "LayerNormalization_call_seq (layernorm2 narrow_block) [[0, 0], [0, 0]]
               = Inr [[3, 4], [3, 4]]"
    by (simp add: narrow_block_def TransformerBlock_init_def narrow_block_weights_def
        LayerNormalization_call_seq_def LayerNormalization_call_def mean_def variance_def)
  have "TransformerBlock_call narrow_block None [[1], [2]] = Inr [[3, 4], [3, 4]]"
    by (simp add: TransformerBlock_call_def a Dropout_call_seq_def s1 ln1 ffn s2 ln2)
  moreover have "has_shape [[1], [2 :: real]] 2 1" and "\<not> has_shape [[3, 4], [3, 4 :: real]] 2 1"
    by (simp_all add: has_shape_def)
  ultimately show ?thesis
    using narrow_block_built by simp
qed

section \<open>The classifier head: facts\<close>

lemma length_softmax [simp]: "length (softmax z) = length z"
  by (simp add: softmax_def)

lemma member_le_sum_list_nonneg:
  fixes xs :: "real list"
  shows "(\<And>y. y \<in> set xs \<Longrightarrow> 0 \<le> y) \<Longrightarrow> x \<in> set xs \<Longrightarrow> x \<le> sum_list xs"
proof (induction xs)
  case Nil
  then show ?case by simp
next
  case (Cons a xs)
  have nn: "0 \<le> sum_list xs"
    by (rule sum_list_nonneg) (simp add: Cons.prems(1))
  have a: "0 \<le> a" by (simp add: Cons.prems(1))
  show ?case
  proof (cases "x = a")
    case True
    with nn show ?thesis by simp
  next
    case False
    with Cons.prems(2) have "x \<in> set xs" by simp
    with Cons.IH Cons.prems(1) have "x \<le> sum_list xs" by simp
    with a show ?thesis by simp
  qed
qed

lemma sum_list_exp_pos:
  fixes z :: "real list"
  assumes "z \<noteq> []"
  shows "0 < sum_list (map exp z)"
proof -
  from assms obtain a zs where z: "z = a # zs" by (cases z) auto
  have "0 \<le> sum_list (map exp zs)"
    by (rule sum_list_nonneg) auto
  moreover have "0 < exp a" by simp
  ultimately show ?thesis unfolding z by (simp add: add_pos_nonneg)
qed

lemma softmax_is_distribution:
  assumes "z \<noteq> []"
  shows "is_distribution (softmax z)"
proof -
  let ?S = "sum_list (map exp z)"
  have S: "0 < ?S" using assms by (rule sum_list_exp_pos)
  have range: "0 \<le> exp x / ?S \<and> exp x / ?S \<le> 1" if "x \<in> set z" for x
  proof -
    have "exp x \<le> ?S"
      by (rule member_le_sum_list_nonneg) (use that in auto)
    with S show ?thesis by simp
  qed
  have "sum_list (map (\<lambda>x. exp x / ?S) z) = sum_list (map (\<lambda>x. exp x * inverse ?S) z)"
    by (simp add: divide_inverse)
  also have "\<dots> = sum_list (map exp z) * inverse ?S"
    by (rule sum_list_mult_const)
  also have "\<dots> = 1" using S by simp
  finally have "sum_list (softmax z) = 1" by (simp add: softmax_def)
  moreover have "list_all (\<lambda>v. 0 \<le> v \<and> v \<le> 1) (softmax z)"
    using range by (auto simp: softmax_def list_all_iff)
  ultimately show ?thesis by (simp add: is_distribution_def)
qed

lemma GlobalAveragePooling1D_call_shape:
  assumes "has_shape xs n d" and "0 < n"
  shows "\<exists>pooled. GlobalAveragePooling1D_call xs = Inr pooled \<and> length pooled = d"
proof -
  from assms have ne: "xs \<noteq> []" by (auto simp: has_shape_def)
  then have "hd xs \<in> set xs" by simp
  with assms(1) have "length (hd xs) = d" by (rule has_shape_rows)
  with ne show ?thesis by (simp add: GlobalAveragePooling1D_call_def)
qed

lemma ClassifierHead_call_unfold:
  "ClassifierHead_call (ClassifierHead_init k1 b1 k2 b2) training x =
     head_steps k1 b1 k2 b2 training x"
  by (simp add: ClassifierHead_call_def ClassifierHead_init_def head_steps_def
      Dense_call_def Let_def cong: if_cong)

lemma ClassifierHead_call_distribution:
  assumes built: "ClassifierHead_built h d"
    and two: "units (head_dense2 h) = 2"
    and soft: "activation (head_dense2 h) = Softmax"
    and ret: "ClassifierHead_call h training x = Inr p"
  shows "length p = 2 \<and> is_distribution p"
proof -
  from built two have b2: "length (bias (head_dense2 h)) = 2"
    by (simp add: ClassifierHead_built_def Dense_built_def)
  from ret obtain z where
    p: "Dense_call (head_dense2 h) z = Inr p"
    by (auto simp: ClassifierHead_call_def Let_def and_then_eq_Inr)
  then have eq: "p = softmax (affine z (kernel (head_dense2 h)) (bias (head_dense2 h)))"
    by (simp add: Dense_call_def soft split: if_splits)
  have len: "length (affine z (kernel (head_dense2 h)) (bias (head_dense2 h))) = 2"
    by (simp add: b2)
  have "affine z (kernel (head_dense2 h)) (bias (head_dense2 h)) \<noteq> []"
  proof
    assume "affine z (kernel (head_dense2 h)) (bias (head_dense2 h)) = []"
    then have "length (affine z (kernel (head_dense2 h)) (bias (head_dense2 h))) = 0"
      by (simp only: list.size)
    with len show False by simp
  qed
  then have "is_distribution p" unfolding eq by (rule softmax_is_distribution)
  moreover have "length p = 2" unfolding eq using len by simp
  ultimately show ?thesis by simp
qed

lemma ClassifierHead_call_returns:
  assumes built: "ClassifierHead_built h d"
    and shape: "has_shape x n d" and n: "0 < n"
  shows "\<exists>p. ClassifierHead_call h training x = Inr p"
proof -
  from built have b1: "Dense_built (head_dense1 h) d"
    and b2: "Dense_built (head_dense2 h) (units (head_dense1 h))"
    by (simp_all add: ClassifierHead_built_def)
  from GlobalAveragePooling1D_call_shape [OF shape n] obtain pooled where
    pooled: "GlobalAveragePooling1D_call x = Inr pooled" "length pooled = d" by blast
  let ?d1 = "Dropout_call (head_dropout1 h) (map_option fst training) pooled"
  have "length ?d1 = d" using pooled(2) by simp
  from Dense_call_built [OF b1 this] obtain h1 where
    h1: "Dense_call (head_dense1 h) ?d1 = Inr h1"
      "h1 = activate (activation (head_dense1 h)) (affine ?d1 (kernel (head_dense1 h)) (bias (head_dense1 h)))"
    by simp
  from b1 h1(2) have l1: "length h1 = units (head_dense1 h)"
    by (simp add: Dense_built_def)
  let ?d2 = "Dropout_call (head_dropout2 h) (map_option snd training) h1"
  have "length ?d2 = units (head_dense1 h)" using l1 by simp
  from Dense_call_built [OF b2 this] obtain p where
    "Dense_call (head_dense2 h) ?d2 = Inr p" by simp
  with pooled(1) h1(1) show ?thesis
    by (simp add: ClassifierHead_call_def Let_def)
qed

lemma dot_zeros: "dot x (replicate m 0) = 0"
proof (induction x arbitrary: m)
  case Nil
  then show ?case by (simp add: dot_def)
next
  case (Cons a x)
  then show ?case by (cases m) (simp_all add: dot_def)
qed

lemma vec_mat_zeros: "vec_mat x (replicate m [0, 0]) (Suc (Suc 0)) = [0, 0]"
  by (simp add: vec_mat_def upt_conv_Cons dot_zeros)

lemma softmax_zeros: "softmax [0, 0] = [1 / 2, 1 / 2]"
  by (simp add: softmax_def)

text \<open>
  Claim C4. The head made by the notebook (lines 181-185) is, in this order: the average
  over the sequence positions, dropout, a dense layer with relu, dropout, a dense layer
  with softmax. On a sequence of \<open>n > 0\<close> vectors of the dimension \<open>d\<close> its
  weights were created for, it returns a value; and every value \<open>p\<close> it returns has
  exactly 2 components, each in \<open>[0, 1]\<close>, that sum to 1 (exactly, in real
  arithmetic).
\<close>

theorem ClassifierHead_call_is_a_distribution_over_two_classes:
  assumes "ClassifierHead_built (ClassifierHead_init k1 b1 k2 b2) d"
  shows "ClassifierHead_call (ClassifierHead_init k1 b1 k2 b2) training x
           = head_steps k1 b1 k2 b2 training x \<and>
         (0 < n \<and> has_shape x n d \<longrightarrow>
            (\<exists>p. ClassifierHead_call (ClassifierHead_init k1 b1 k2 b2) training x = Inr p)) \<and>
         (\<forall>p. ClassifierHead_call (ClassifierHead_init k1 b1 k2 b2) training x = Inr p \<longrightarrow>
            length p = 2 \<and> (\<forall>v\<in>set p. 0 \<le> v \<and> v \<le> 1) \<and> sum_list p = 1)"
proof (intro conjI impI allI)
  show "ClassifierHead_call (ClassifierHead_init k1 b1 k2 b2) training x
          = head_steps k1 b1 k2 b2 training x"
    by (rule ClassifierHead_call_unfold)
next
  assume "0 < n \<and> has_shape x n d"
  with assms show "\<exists>p. ClassifierHead_call (ClassifierHead_init k1 b1 k2 b2) training x = Inr p"
    using ClassifierHead_call_returns by blast
next
  fix p assume ret: "ClassifierHead_call (ClassifierHead_init k1 b1 k2 b2) training x = Inr p"
  have two: "units (head_dense2 (ClassifierHead_init k1 b1 k2 b2)) = 2"
    and soft: "activation (head_dense2 (ClassifierHead_init k1 b1 k2 b2)) = Softmax"
    by (simp_all add: ClassifierHead_init_def)
  from ClassifierHead_call_distribution [OF assms two soft ret]
  show "length p = 2" and "\<forall>v\<in>set p. 0 \<le> v \<and> v \<le> 1" and "sum_list p = 1"
    by (simp_all add: is_distribution_def list_all_iff)
qed

theorem ClassifierHead_call_is_a_distribution_over_two_classes_witness:
  "ClassifierHead_call example_head_layers None [[1, 2], [3, 4]] = Inr [1 / 2, 1 / 2] \<and>
   length [1 / 2, 1 / 2 :: real] = 2 \<and>
   list_all (\<lambda>v. 0 \<le> v \<and> v \<le> 1) [1 / 2, 1 / 2 :: real] \<and>
   sum_list [1 / 2, 1 / 2 :: real] = 1"
proof -
  have b: "ClassifierHead_built
             (ClassifierHead_init (replicate 2 (replicate 20 1)) (replicate 20 0)
                (replicate 20 [0, 0]) [0, 0]) 2"
    by (simp add: ClassifierHead_built_def ClassifierHead_init_def Dense_built_def has_shape_def
        list_all_iff)
  note t = ClassifierHead_call_is_a_distribution_over_two_classes
    [OF b, of None "[[1, 2], [3, 4]]" 2]
  have pooled: "GlobalAveragePooling1D_call [[1, 2], [3, 4]] = Inr [2, 3]"
    by (simp add: GlobalAveragePooling1D_call_def upt_conv_Cons)
  have ev: "ClassifierHead_call example_head_layers None [[1, 2], [3, 4]] = Inr [1 / 2, 1 / 2]"
    by (simp add: ClassifierHead_call_def example_head_layers_def ClassifierHead_init_def pooled
        Dropout_call_def Dense_call_def affine_def vec_mat_zeros softmax_zeros relu_def)
  with t have "length [1 / 2, 1 / 2 :: real] = 2 \<and>
      (\<forall>v\<in>set [1 / 2, 1 / 2 :: real]. 0 \<le> v \<and> v \<le> 1) \<and> sum_list [1 / 2, 1 / 2 :: real] = 1"
    unfolding example_head_layers_def by blast
  with ev show ?thesis by (simp add: list_all_iff)
qed

section \<open>The model: facts\<close>

lemma traverse_all:
  "(\<And>x. x \<in> set xs \<Longrightarrow> \<exists>y. f x = Inr y \<and> P y) \<Longrightarrow>
     \<exists>ys. traverse f xs = Inr ys \<and> length ys = length xs \<and> list_all P ys"
proof (induction xs)
  case Nil
  then show ?case by simp
next
  case (Cons a xs)
  from Cons.prems obtain y where y: "f a = Inr y" "P y" by auto
  from Cons.IH Cons.prems obtain ys where
    ys: "traverse f xs = Inr ys" "length ys = length xs" "list_all P ys" by auto
  from y ys show ?case by simp
qed

lemma token_plus_position_shape:
  assumes built: "TokenAndPositionEmbedding_built self"
    and ids: "ids_in_range (input_dim (token_emb self)) x"
    and len: "length x \<le> input_dim (pos_emb self)"
  shows "has_shape (token_plus_position self x) (length x) (output_dim (token_emb self))"
proof -
  let ?d = "output_dim (token_emb self)"
  from built have tok: "has_shape (embeddings (token_emb self)) (input_dim (token_emb self)) ?d"
    and pos: "has_shape (embeddings (pos_emb self)) (input_dim (pos_emb self)) ?d"
    by (auto simp: TokenAndPositionEmbedding_built_def Embedding_built_def)
  have "length (token_plus_position self x ! p) = ?d" if p: "p < length x" for p
  proof -
    from ids p have "0 \<le> x ! p \<and> x ! p < int (input_dim (token_emb self))"
      by (simp add: ids_in_range_def list_all_length)
    then have "nat (x ! p) < input_dim (token_emb self)" by linarith
    with tok have a: "length (embeddings (token_emb self) ! nat (x ! p)) = ?d"
      by (rule has_shape_nth)
    from p len have "p < input_dim (pos_emb self)" by simp
    with pos have b: "length (embeddings (pos_emb self) ! p) = ?d" by (rule has_shape_nth)
    from a b p show ?thesis by (simp add: token_plus_position_def)
  qed
  then show ?thesis
    by (simp add: has_shape_def list_all_length token_plus_position_def)
qed

lemma Model_init_dims:
  "input_dim (token_emb (embedding_layer (Model_init w))) = vocab_size"
  "input_dim (pos_emb (embedding_layer (Model_init w))) = maxlen"
  "output_dim (token_emb (embedding_layer (Model_init w))) = embed_dim"
  "Sequential_output_dim (ffn (transformer_block (Model_init w))) d = embed_dim"
  "units (head_dense2 (head (Model_init w))) = 2"
  "activation (head_dense2 (head (Model_init w))) = Softmax"
  by (simp_all add: Model_init_def TokenAndPositionEmbedding_init_def TransformerBlock_init_def
      ClassifierHead_init_def)

lemma Model_call_sample_distribution:
  assumes built: "Model_built (Model_init w)"
    and len: "length x = maxlen" and ids: "ids_in_range vocab_size x"
  shows "\<exists>p. Model_call_sample (Model_init w) training x = Inr p \<and>
           length p = 2 \<and> is_distribution p"
proof -
  let ?m = "Model_init w"
  from built have e: "TokenAndPositionEmbedding_built (embedding_layer ?m)"
    and b: "TransformerBlock_built (transformer_block ?m) embed_dim"
    and h: "ClassifierHead_built (head ?m) embed_dim"
    by (simp_all add: Model_built_def)
  have ids': "ids_in_range (input_dim (token_emb (embedding_layer ?m))) x"
    and len': "length x \<le> input_dim (pos_emb (embedding_layer ?m))"
    using ids len by (simp_all add: Model_init_dims)
  have E: "TokenAndPositionEmbedding_call (embedding_layer ?m) x
             = Inr (token_plus_position (embedding_layer ?m) x)"
    using e ids' len' by (rule TokenAndPositionEmbedding_call_valid)
  have Es: "has_shape (token_plus_position (embedding_layer ?m) x) maxlen embed_dim"
    using token_plus_position_shape [OF e ids' len'] len by (simp add: Model_init_dims)
  from TransformerBlock_call_shape [OF b _ Es, of "map_option fst training"] obtain y where
    y: "TransformerBlock_call (transformer_block ?m) (map_option fst training)
          (token_plus_position (embedding_layer ?m) x) = Inr y"
      "has_shape y maxlen embed_dim"
    by (auto simp: Model_init_dims broadcast_dim_def)
  have pos: "0 < maxlen" by (simp add: maxlen_def)
  from ClassifierHead_call_returns [OF h y(2) pos, of "map_option snd training"] obtain p where
    p: "ClassifierHead_call (head ?m) (map_option snd training) y = Inr p" by blast
  from ClassifierHead_call_distribution [OF h Model_init_dims(5) Model_init_dims(6) p]
  have "length p = 2 \<and> is_distribution p" .
  moreover from len E y(1) p have "Model_call_sample ?m training x = Inr p"
    by (simp add: Model_call_sample_def)
  ultimately show ?thesis by blast
qed

text \<open>
  Claim C6. The model on a batch of 32 token sequences, each of length 200 with ids in
  \<open>[0, vocab_size)\<close>, returns 32 rows of 2 numbers each (shape (32, 2)), every
  number in \<open>[0, 1]\<close>, in training and outside it.
\<close>

theorem Model_call_on_batch_of_32:
  assumes "Model_built (Model_init w)"
    and "length batch = 32"
    and "\<forall>x\<in>set batch. length x = 200 \<and> ids_in_range vocab_size x"
  shows "\<exists>out. Model_call (Model_init w) training batch = Inr out \<and>
           length out = 32 \<and>
           (\<forall>p\<in>set out. length p = 2 \<and> (\<forall>v\<in>set p. 0 \<le> v \<and> v \<le> 1))"
proof -
  let ?f = "\<lambda>(i, inputs). Model_call_sample (Model_init w) (map_option (\<lambda>t. t i) training) inputs"
  have "\<exists>p. ?f ix = Inr p \<and> length p = 2 \<and> is_distribution p"
    if "ix \<in> set (enumerate 0 batch)" for ix
  proof -
    obtain i x where ix: "ix = (i, x)" by (cases ix) auto
    with that have "x \<in> set batch" by (auto simp: enumerate_eq_zip dest: set_zip_rightD)
    with assms(3) have "length x = maxlen" "ids_in_range vocab_size x"
      by (simp_all add: maxlen_def)
    from Model_call_sample_distribution [OF assms(1) this] show ?thesis
      by (simp add: ix)
  qed
  from traverse_all [of "enumerate 0 batch" ?f "\<lambda>p. length p = 2 \<and> is_distribution p", OF this]
  obtain out where
    out: "traverse ?f (enumerate 0 batch) = Inr out" "length out = length (enumerate 0 batch)"
      "list_all (\<lambda>p. length p = 2 \<and> is_distribution p) out"
    by blast
  from out(3) have "\<forall>p\<in>set out. length p = 2 \<and> (\<forall>v\<in>set p. 0 \<le> v \<and> v \<le> 1)"
    by (simp add: list_all_iff is_distribution_def)
  with out(1,2) assms(2) show ?thesis
    by (simp add: Model_call_def)
qed

lemma example_model_built: "Model_built (Model_init example_model_weights)"
  by (simp add: Model_built_def Model_init_def example_model_weights_def zero_head_def
      TokenAndPositionEmbedding_built_def TokenAndPositionEmbedding_init_def Embedding_built_def
      TransformerBlock_built_def TransformerBlock_init_def MultiHeadAttention_built_def
      AttentionHead_built_def Dense_built_def LayerNormalization_built_def
      ClassifierHead_built_def ClassifierHead_init_def has_shape_def list_all_iff
      broadcast_dim_def maxlen_def vocab_size_def embed_dim_def num_heads_def ff_dim_def)

theorem Model_call_on_batch_of_32_witness:
  "\<exists>out. Model_call (Model_init example_model_weights) None (replicate 32 (replicate 200 7))
            = Inr out \<and>
     length out = 32 \<and> list_all (\<lambda>p. length p = 2 \<and> list_all (\<lambda>v. 0 \<le> v \<and> v \<le> 1) p) out"
proof -
  have l: "length (replicate 32 (replicate 200 (7 :: int))) = 32" by simp
  have v: "\<forall>x\<in>set (replicate 32 (replicate 200 (7 :: int))).
             length x = 200 \<and> ids_in_range vocab_size x"
    by (simp add: ids_in_range_def vocab_size_def list_all_iff)
  from Model_call_on_batch_of_32 [OF example_model_built l v, of None] show ?thesis
    by (simp add: list_all_iff)
qed

end
